theory Spec2Isabelle
  imports Main "HOL-Library.Sublist"
begin

section \<open>Strings as Python handles them\<close>

text \<open>
  \<open>s.split(sep)\<close> of Python for a separator of one character: the pieces of \<open>s\<close> between
  the separators. The result is never empty (\<open>"".split(":")\<close> is \<open>[""]\<close>), so the index
  \<open>[-1]\<close> of the source never raises.
\<close>

fun str_split :: "char \<Rightarrow> string \<Rightarrow> string list" where
  "str_split c [] = [[]]"
| "str_split c (x # xs) =
     (if x = c then [] # str_split c xs
      else (case str_split c xs of [] \<Rightarrow> [[x]] | w # ws \<Rightarrow> (x # w) # ws))"

text \<open>\<open>s.split(sep)[-1]\<close>.\<close>

definition last_piece :: "char \<Rightarrow> string \<Rightarrow> string" where
  "last_piece c s = last (str_split c s)"

text \<open>\<open>remove_namespace(joint_name)\<close>: \<open>joint_name.split(":")[-1]\<close>.\<close>

definition remove_namespace :: "string \<Rightarrow> string" where
  "remove_namespace joint_name = last_piece CHR '':'' joint_name"

section \<open>Dictionaries in insertion order\<close>

text \<open>
  A Python dict keeps its keys in the order of their first insertion; assigning to a key
  that is present replaces the value in place. A dict is an association list with
  distinct keys.
\<close>

fun dict_set :: "'k \<Rightarrow> 'v \<Rightarrow> ('k \<times> 'v) list \<Rightarrow> ('k \<times> 'v) list" where
  "dict_set k v [] = [(k, v)]"
| "dict_set k v ((k', v') # d) =
     (if k' = k then (k, v) # d else (k', v') # dict_set k v d)"

text \<open>The comprehension \<open>{key(j): j for j in js}\<close>.\<close>

definition dict_comp :: "('v \<Rightarrow> 'k) \<Rightarrow> 'v list \<Rightarrow> ('k \<times> 'v) list" where
  "dict_comp key js = fold (\<lambda>j d. dict_set (key j) j d) js []"

section \<open>The scene, the file system and the module's global\<close>

text \<open>
  The program drives Maya through \<open>maya.cmds\<close>. The state it reads and writes is the scene
  (its joints and their animation curves), the key clipboard, the file system, what it
  printed, and its one global, \<open>imported_joint_uuids\<close>.

  \<open>paths\<close> lists the files and folders that exist, \<open>exported\<close> the files written by
  \<open>FBXExport\<close>, \<open>fbx_loaded\<close> tells whether the plug-in \<open>fbxmaya\<close> is loaded.

  \<open>others\<close> lists the nodes of the scene that are not joints (groups, cameras).

  A node is named by its full DAG path, \<open>|Root|Spine\<close>; the ancestors in a path need not
  be joints. A key is a sample \<open>(time, value)\<close>; keys are only counted and copied, never
  computed with. \<open>anim s n a\<close> is the curve of channel \<open>a\<close> of node \<open>n\<close>. Joints carry the
  six tracked channels and the channels listed in \<open>extra_channels\<close>.
\<close>

type_synonym curve = "(int \<times> int) list"

datatype message = Warning string | Print string

datatype error = ValueError | IndexError | RuntimeError

record state =
  joints :: "string list"
  others :: "string list"
  extra_channels :: "string list"
  anim :: "string \<Rightarrow> string \<Rightarrow> curve"
  clipboard :: "(string \<times> curve) list"
  selection :: "string list"
  uuid :: "string \<Rightarrow> string"
  locked :: "string \<Rightarrow> bool"
  paths :: "string list"
  exported :: "string list"
  fbx_loaded :: bool
  imported_joint_uuids :: "string list"
  log :: "message list"

text \<open>
  \<open>cmds.warning\<close> and \<open>print\<close>. The log keeps the text of a message and the names it
  mentions, without emoji, quotation marks and the text of a caught exception; messages
  that only report a count or print a list are left out.
\<close>

definition warning :: "string \<Rightarrow> state \<Rightarrow> state" where
  "warning m s = s\<lparr>log := log s @ [Warning m]\<rparr>"

definition print :: "string \<Rightarrow> state \<Rightarrow> state" where
  "print m s = s\<lparr>log := log s @ [Print m]\<rparr>"

text \<open>The channels of the loops of both transfers, in the order of the source.\<close>

text \<open>
  The truth value of a joint name in \<open>if imported_root_joint:\<close> and \<open>if not root_joint:\<close>:
  \<open>None\<close> and the empty string are false.
\<close>

definition if_truthy :: "string option \<Rightarrow> string option" where
  "if_truthy r = (if r = Some [] then None else r)"

definition tracked :: "string list" where
  "tracked = [''translateX'', ''translateY'', ''translateZ'',
              ''rotateX'', ''rotateY'', ''rotateZ'']"

definition keyable :: "state \<Rightarrow> string list" where
  "keyable s = remdups (tracked @ extra_channels s)"

subsection \<open>Names\<close>

text \<open>
  \<open>cmds.ls(ref, long=True)\<close>: the full paths of the nodes that \<open>ref\<close> names. A name that
  starts with \<open>|\<close> is a full path; any other name is a partial path and names every node
  whose path ends with it at a \<open>|\<close>.
\<close>

definition nodes :: "state \<Rightarrow> string list" where
  "nodes s = joints s @ others s"

definition ls_long :: "state \<Rightarrow> string \<Rightarrow> string list" where
  "ls_long s ref =
     filter (\<lambda>p. if prefix ''|'' ref then p = ref else suffix (CHR ''|'' # ref) p) (nodes s)"

definition objExists :: "state \<Rightarrow> string \<Rightarrow> bool" where
  "objExists s ref \<longleftrightarrow> ls_long s ref \<noteq> []"

text \<open>
  A command other than \<open>ls\<close> and \<open>objExists\<close> raises \<open>ValueError\<close> on a name of no node
  (No object matches name) and on a name of several (More than one object matches name).
\<close>

definition the_node :: "state \<Rightarrow> string \<Rightarrow> error + string" where
  "the_node s ref = (case ls_long s ref of [p] \<Rightarrow> Inr p | _ \<Rightarrow> Inl ValueError)"

text \<open>
  \<open>cmds.listRelatives(ref, allDescendents=True, type="joint", fullPath=True) or []\<close>: the
  full paths of the joints below the node, in the order of the scene.
\<close>

definition listRelatives :: "state \<Rightarrow> string \<Rightarrow> error + string list" where
  "listRelatives s ref =
     (case the_node s ref of
        Inl e \<Rightarrow> Inl e
      | Inr p \<Rightarrow> Inr (filter (\<lambda>q. prefix (p @ ''|'') q) (joints s)))"

text \<open>
  The node of a name inside the loops, where every name has been listed by the scene.
\<close>

definition node_of :: "state \<Rightarrow> string \<Rightarrow> string" where
  "node_of s ref = (case ls_long s ref of [] \<Rightarrow> ref | p # _ \<Rightarrow> p)"

subsection \<open>Keys\<close>

text \<open>\<open>cmds.keyframe(ref, attribute=attr, query=True, keyframeCount=True)\<close>.\<close>

definition keyframeCount_attr :: "state \<Rightarrow> string \<Rightarrow> string \<Rightarrow> nat" where
  "keyframeCount_attr s ref attr = length (anim s (node_of s ref) attr)"

text \<open>\<open>cmds.keyframe(ref, query=True, keyframeCount=True)\<close>: the keys of all channels.\<close>

definition keyframeCount :: "state \<Rightarrow> string \<Rightarrow> nat" where
  "keyframeCount s ref = sum_list (map (\<lambda>a. length (anim s (node_of s ref) a)) (keyable s))"

text \<open>\<open>cmds.copyKey(ref)\<close> puts every keyed channel of the node on the clipboard.\<close>

definition copyKey :: "string \<Rightarrow> state \<Rightarrow> state" where
  "copyKey ref s =
     s\<lparr>clipboard := map (\<lambda>a. (a, anim s (node_of s ref) a))
                        (filter (\<lambda>a. anim s (node_of s ref) a \<noteq> []) (keyable s))\<rparr>"

text \<open>\<open>cmds.copyKey(ref, attribute=attr)\<close> puts that channel there, when it has keys.\<close>

definition copyKey_attr :: "string \<Rightarrow> string \<Rightarrow> state \<Rightarrow> state" where
  "copyKey_attr ref attr s =
     s\<lparr>clipboard := map (\<lambda>a. (a, anim s (node_of s ref) a))
                        (filter (\<lambda>a. anim s (node_of s ref) a \<noteq> []) [attr])\<rparr>"

text \<open>
  \<open>cmds.pasteKey(ref, option="replace")\<close>: each curve of the clipboard replaces the curve
  of the channel of the same name on the node. \<open>cmds.pasteKey(ref, attribute=attr,
  option="replace")\<close> pastes onto that one channel.
\<close>

definition paste_curves :: "(string \<times> curve) list \<Rightarrow> (string \<Rightarrow> curve) \<Rightarrow> string \<Rightarrow> curve" where
  "paste_curves clip f = fold (\<lambda>(a, c) g. g(a := c)) clip f"

definition pasteKey :: "string \<Rightarrow> state \<Rightarrow> state" where
  "pasteKey ref s =
     s\<lparr>anim := (anim s)(node_of s ref := paste_curves (clipboard s) (anim s (node_of s ref)))\<rparr>"

definition pasteKey_attr :: "string \<Rightarrow> string \<Rightarrow> state \<Rightarrow> state" where
  "pasteKey_attr ref attr s =
     s\<lparr>anim := (anim s)(node_of s ref :=
          paste_curves (filter (\<lambda>(a, c). a = attr) (clipboard s)) (anim s (node_of s ref)))\<rparr>"

section \<open>Transfer, imported skeleton to rig\<close>

text \<open>
  The body of the loop over the tracked channels, the same in both transfers:
  \<^verbatim>\<open>
  if cmds.keyframe(imported_joint, attribute=attr, query=True, keyframeCount=True) > 0:
      cmds.copyKey(imported_joint, attribute=attr)
      cmds.pasteKey(rig_joint, attribute=attr, option="replace")
  \<close>
\<close>

definition transfer_attr :: "string \<Rightarrow> string \<Rightarrow> string \<Rightarrow> state \<Rightarrow> state" where
  "transfer_attr imported_joint rig_joint attr s =
     (if keyframeCount_attr s imported_joint attr > 0
      then pasteKey_attr rig_joint attr (copyKey_attr imported_joint attr s)
      else s)"

text \<open>\<open>for attr in [...]\<close> for one matched pair.\<close>

definition transfer_pair :: "string \<Rightarrow> string \<Rightarrow> state \<Rightarrow> state" where
  "transfer_pair imported_joint rig_joint s =
     fold (transfer_attr imported_joint rig_joint) tracked s"

text \<open>\<open>for joint_name, imported_joint in imported_dict.items(): if joint_name in rig_dict: ...\<close>\<close>

fun transfer_loop :: "(string \<times> string) list \<Rightarrow> (string \<times> string) list \<Rightarrow> state \<Rightarrow> state" where
  "transfer_loop [] rig_dict s = s"
| "transfer_loop ((joint_name, imported_joint) # items) rig_dict s =
     (case map_of rig_dict joint_name of
        None \<Rightarrow> transfer_loop items rig_dict s
      | Some rig_joint \<Rightarrow> transfer_loop items rig_dict (transfer_pair imported_joint rig_joint s))"

text \<open>
  The match key of the first transfer, \<open>cmds.ls(j, long=True)[0].split("|")[-1]\<close>, and the
  comprehension over it; the index \<open>[0]\<close> raises \<open>IndexError\<close> on a name of no node.
\<close>

definition long_key :: "state \<Rightarrow> string \<Rightarrow> error + string" where
  "long_key s j = (case ls_long s j of [] \<Rightarrow> Inl IndexError | p # _ \<Rightarrow> Inr (last_piece CHR ''|'' p))"

fun dict_long :: "state \<Rightarrow> string list \<Rightarrow> (string \<times> string) list \<Rightarrow> error + (string \<times> string) list" where
  "dict_long s [] d = Inr d"
| "dict_long s (j # js) d =
     (case long_key s j of Inl e \<Rightarrow> Inl e | Inr k \<Rightarrow> dict_long s js (dict_set k j d))"

text \<open>The root motion: every keyed channel of the imported root, copied before the loop.\<close>

definition root_motion :: "string \<Rightarrow> string \<Rightarrow> state \<Rightarrow> state" where
  "root_motion imported_root rig_root s =
     (if keyframeCount s imported_root > 0
      then pasteKey rig_root (copyKey imported_root (print ''Transferring root motion...'' s))
      else s)"

definition transfer_animation :: "string \<Rightarrow> string \<Rightarrow> state \<Rightarrow> error + state" where
  "transfer_animation imported_root rig_root s =
     (if \<not> objExists s imported_root \<or> \<not> objExists s rig_root
      then Inr (warning ''Imported or rig root not found. Skipping transfer.'' s)
      else
        case listRelatives s imported_root of Inl e \<Rightarrow> Inl e | Inr ds \<Rightarrow>
        case listRelatives s rig_root of Inl e \<Rightarrow> Inl e | Inr rs \<Rightarrow>
        case dict_long s (ds @ [imported_root]) [] of Inl e \<Rightarrow> Inl e | Inr imported_dict \<Rightarrow>
        case dict_long s (rs @ [rig_root]) [] of Inl e \<Rightarrow> Inl e | Inr rig_dict \<Rightarrow>
          Inr (transfer_loop imported_dict rig_dict (root_motion imported_root rig_root s)))"

section \<open>Transfer, rig to rig, ignoring namespaces\<close>

definition transfer_animation_ignore_namespace :: "string \<Rightarrow> string \<Rightarrow> state \<Rightarrow> error + state" where
  "transfer_animation_ignore_namespace source_root target_root s =
     (case listRelatives s source_root of Inl e \<Rightarrow> Inl e | Inr ds \<Rightarrow>
      case listRelatives s target_root of Inl e \<Rightarrow> Inl e | Inr rs \<Rightarrow>
        Inr (print ''Animation successfully transferred to target rig!''
              (transfer_loop (dict_comp remove_namespace (ds @ [source_root]))
                             (dict_comp remove_namespace (rs @ [target_root])) s)))"

section \<open>What the program does not decide\<close>

text \<open>
  The behaviour of the collaborators that the source does not fix: the order in which
  Python iterates a set, the directory listing, \<open>os.path.abspath\<close> (it depends on the
  working directory), what \<open>FBXImport\<close> adds to the scene or whether it raises, whether
  the plug-in can be loaded, whether \<open>os.makedirs\<close> and \<open>FBXExport\<close> fail, and what
  \<open>cmds.delete\<close> does to the scene or whether it raises.
\<close>

record env =
  set_order :: "string list \<Rightarrow> string list"
  listdir :: "string \<Rightarrow> string list"
  abspath :: "string \<Rightarrow> string"
  fbx_import :: "string \<Rightarrow> state \<Rightarrow> error + state"
  fbx_available :: bool
  makedirs_fails :: "string \<Rightarrow> bool"
  fbx_export_fails :: "string \<Rightarrow> bool"
  cmds_delete :: "string \<Rightarrow> state \<Rightarrow> error + state"

section \<open>Paths of the file system\<close>

text \<open>\<open>os.path.join(a, b)\<close> with the separator \<open>/\<close>.\<close>

definition path_join :: "string \<Rightarrow> string \<Rightarrow> string" where
  "path_join a b =
     (if prefix ''/'' b then b
      else if a = [] \<or> suffix ''/'' a then a @ b
      else a @ ''/'' @ b)"

text \<open>\<open>s.replace("\\", "/")\<close>.\<close>

definition replace_backslash :: "string \<Rightarrow> string" where
  "replace_backslash s = map (\<lambda>c. if c = CHR 0x5C then CHR ''/'' else c) s"

text \<open>
  \<open>os.path.splitext(name)[0]\<close> for a name without a separator: the name up to its last
  dot, unless only dots come before that dot.
\<close>

definition splitext_root :: "string \<Rightarrow> string" where
  "splitext_root name =
     (let root = rev (tl (dropWhile (\<lambda>c. c \<noteq> CHR ''.'') (rev name)))
      in if CHR ''.'' \<notin> set name \<or> (\<forall>c \<in> set root. c = CHR ''.'') then name else root)"

text \<open>\<open>s.lower()\<close> on the letters of ASCII, and \<open>f.lower().endswith('.fbx')\<close>.\<close>

definition lower_char :: "char \<Rightarrow> char" where
  "lower_char c =
     (let n = of_char c :: nat in if 65 \<le> n \<and> n \<le> 90 then char_of (n + 32) else c)"

definition is_fbx :: "string \<Rightarrow> bool" where
  "is_fbx f \<longleftrightarrow> suffix ''.fbx'' (map lower_char f)"

text \<open>\<open>os.path.exists\<close>, and \<open>os.makedirs\<close>, which creates the missing parents too.\<close>

definition path_exists :: "state \<Rightarrow> string \<Rightarrow> bool" where
  "path_exists s p \<longleftrightarrow> p \<in> set (paths s)"

definition parents_of :: "string \<Rightarrow> string list" where
  "parents_of p =
     filter (\<lambda>q. q \<noteq> [] \<and> q \<noteq> p \<and> prefix (q @ ''/'') p) (prefixes p)"

definition makedirs :: "string \<Rightarrow> state \<Rightarrow> state" where
  "makedirs p s =
     s\<lparr>paths := paths s @ filter (\<lambda>q. q \<notin> set (paths s)) (parents_of p @ [p])\<rparr>"

section \<open>Import\<close>

text \<open>
  \<open>cmds.ls(type="joint")\<close> lists the joints of the scene, here by their paths.
  \<open>cmds.listRelatives(joint, parent=True)\<close> is the parent of the node, if it has one.
\<close>

definition ls_joints :: "state \<Rightarrow> string list" where
  "ls_joints s = joints s"

definition parent_path :: "string \<Rightarrow> string" where
  "parent_path p = rev (tl (dropWhile (\<lambda>c. c \<noteq> CHR ''|'') (rev p)))"

definition listRelatives_parent :: "state \<Rightarrow> string \<Rightarrow> string list" where
  "listRelatives_parent s joint =
     (if parent_path (node_of s joint) = [] then [] else [parent_path (node_of s joint)])"

text \<open>\<open>list(set(after_import) - set(before_import))\<close>, in the order the set iterates.\<close>

definition new_joints :: "env \<Rightarrow> string list \<Rightarrow> string list \<Rightarrow> string list" where
  "new_joints e before_import after_import =
     set_order e (remdups (filter (\<lambda>j. j \<notin> set before_import) after_import))"

definition get_new_root_joint :: "env \<Rightarrow> string list \<Rightarrow> state \<Rightarrow> string option \<times> state" where
  "get_new_root_joint e before_import s =
     (let new = new_joints e before_import (ls_joints s) in
      if new = [] then (None, warning ''No new joints detected after import!'' s)
      else (case find (\<lambda>joint. listRelatives_parent s joint = []) new of
              Some joint \<Rightarrow> (Some joint, print (''Detected imported root joint: '' @ joint) s)
            | None \<Rightarrow> (None, warning ''No valid root joint found in new joints!'' s)))"

text \<open>
  \<open>cmds.ls(root, dag=True, type="joint")\<close>: the node, when it is a joint, and the joints
  below it.
\<close>

definition ls_dag :: "state \<Rightarrow> string \<Rightarrow> string list" where
  "ls_dag s ref =
     concat (map (\<lambda>p. (if p \<in> set (joints s) then [p] else [])
                      @ filter (\<lambda>q. prefix (p @ ''|'') q) (joints s)) (ls_long s ref))"

text \<open>
  The loop that stores the UUIDs; \<open>selection.add(joint)\<close> raises on a name of no node and
  the \<open>except\<close> turns that into a warning.
\<close>

fun store_uuids :: "string list \<Rightarrow> state \<Rightarrow> state" where
  "store_uuids [] s = s"
| "store_uuids (joint # js) s =
     store_uuids js
       (if objExists s joint
        then s\<lparr>imported_joint_uuids := imported_joint_uuids s @ [uuid s (node_of s joint)]\<rparr>
        else warning (''Failed to get UUID for: '' @ joint) s)"

definition import_fbx_animation :: "env \<Rightarrow> string \<Rightarrow> state \<Rightarrow> error + (string option \<times> state)" where
  "import_fbx_animation e fbx_file s0 =
     (let s = s0\<lparr>imported_joint_uuids := []\<rparr> in
      if \<not> path_exists s fbx_file
      then Inr (None, warning (''FBX file does not exist: '' @ fbx_file) s)
      else
        let joints_before = ls_joints s in
        case fbx_import e fbx_file s of
          Inl err \<Rightarrow> Inl err
        | Inr s1 \<Rightarrow>
            let s2 = print (''Animation successfully imported from: '' @ fbx_file) s1;
                (imported_root_joint, s3) = get_new_root_joint e joints_before s2;
                imported_joints = (case if_truthy imported_root_joint of
                                     Some root \<Rightarrow> ls_dag s3 root | None \<Rightarrow> [])
            in Inr (imported_root_joint, store_uuids imported_joints s3))"

section \<open>Export\<close>

text \<open>
  The export options set through \<open>mel.eval\<close> and the playback range they read are not part
  of the state; the export is its file.
\<close>

definition output_fbx :: "env \<Rightarrow> string \<Rightarrow> string \<Rightarrow> string \<Rightarrow> string \<Rightarrow> string" where
  "output_fbx e output_fbx_folder animation_name pre suf =
     replace_backslash
       (path_join (abspath e output_fbx_folder) (pre @ animation_name @ suf @ ''.fbx''))"

definition export_fbx_animation ::
  "env \<Rightarrow> string \<Rightarrow> string \<Rightarrow> string \<Rightarrow> string \<Rightarrow> string \<Rightarrow> state \<Rightarrow> error + state" where
  "export_fbx_animation e rig_root output_fbx_folder animation_name pre suf s =
     (if \<not> objExists s rig_root
      then Inr (warning (''Rig root '' @ rig_root @ '' not found in the scene!'') s)
      else if ls_dag s rig_root = []
      then Inr (warning (''No joints found under '' @ rig_root) s)
      else
        let s1 = s\<lparr>selection := ls_dag s rig_root\<rparr>;
            folder = abspath e output_fbx_folder
        in
        if \<not> path_exists s1 folder \<and> makedirs_fails e folder
        then Inr (warning ''Failed to create export folder'' s1)
        else
          let s2 = (if \<not> path_exists s1 folder then makedirs folder s1 else s1);
              out = output_fbx e output_fbx_folder animation_name pre suf;
              s3 = print (''Exporting: '' @ out) s2
          in
          if \<not> fbx_loaded s3 \<and> \<not> fbx_available e then Inl RuntimeError
          else
            let s4 = s3\<lparr>fbx_loaded := True\<rparr> in
            if fbx_export_fails e out
            then Inr (warning ''FBX Export Failed'' s4)
            else Inr (print (''Successfully exported: '' @ out)
                        (s4\<lparr>exported := exported s4 @ [out],
                            paths := paths s4 @ [out]\<rparr>)))"

section \<open>Deleting the imported skeleton\<close>

text \<open>
  The loop over \<open>cmds.ls(uuid=True)\<close> looks for the node whose UUID is the first of the
  list. The early \<open>return\<close> when there is none leaves the function before the list is
  cleared. An exception of \<open>cmds.delete\<close> is caught by the \<open>except\<close>.
\<close>

definition finish_delete :: "state \<Rightarrow> state" where
  "finish_delete s = print ''Finished delete_imported_skeleton().'' (s\<lparr>imported_joint_uuids := []\<rparr>)"

definition delete_imported_skeleton :: "env \<Rightarrow> state \<Rightarrow> state" where
  "delete_imported_skeleton e s0 =
     (let s = print ''Starting delete_imported_skeleton()...'' s0 in
      if imported_joint_uuids s = []
      then warning ''No imported joints found to delete!'' s
      else
        let root_uuid = hd (imported_joint_uuids s);
            s' = print (''Processing only the root joint UUID: '' @ root_uuid) s
        in
        case if_truthy (find (\<lambda>node. uuid s' node = root_uuid) (nodes s')) of
          None \<Rightarrow> print (''No root joint found for UUID '' @ root_uuid) s'
        | Some root_joint \<Rightarrow>
            let s1 = print (''Root joint identified: '' @ root_joint) s';
                s2 = (if locked s1 root_joint
                      then (print (''Unlocking '' @ root_joint) s1)
                             \<lparr>locked := (locked s1)(root_joint := False)\<rparr>
                      else s1);
                s2 = print (''Deleting '' @ root_joint @ '' (this will remove all child joints too)...'') s2
            in
            case cmds_delete e root_joint s2 of
              Inl err \<Rightarrow> finish_delete (warning ''Failed to delete skeleton.'' s2)
            | Inr s3 \<Rightarrow>
                finish_delete
                  (if objExists s3 root_joint
                   then print (''Failed to delete: '' @ root_joint) s3
                   else print ''Successfully deleted the skeleton!'' s3))"

text \<open>\<open>cmds.delete\<close> as it is meant to work: the node goes, and the nodes below it.\<close>

definition delete_cascade :: "string \<Rightarrow> state \<Rightarrow> error + state" where
  "delete_cascade node s =
     Inr (s\<lparr>joints := filter (\<lambda>q. q \<noteq> node \<and> \<not> prefix (node @ ''|'') q) (joints s),
            others := filter (\<lambda>q. q \<noteq> node \<and> \<not> prefix (node @ ''|'') q) (others s)\<rparr>)"

section \<open>The batch\<close>

fun batch_loop ::
  "env \<Rightarrow> string \<Rightarrow> string \<Rightarrow> string \<Rightarrow> string \<Rightarrow> string \<Rightarrow> string \<Rightarrow> string list \<Rightarrow> state
     \<Rightarrow> error + state" where
  "batch_loop e source_folder export_folder source_rig_root target_rig_root pre suf [] s = Inr s"
| "batch_loop e source_folder export_folder source_rig_root target_rig_root pre suf (fbx_file # fs) s =
     (let fbx_file_path = replace_backslash (path_join source_folder fbx_file);
          animation_name = splitext_root fbx_file;
          s0 = print (''Processing: '' @ fbx_file_path) s
      in
      case import_fbx_animation e fbx_file_path s0 of
        Inl err \<Rightarrow> Inl err
      | Inr (root, s1) \<Rightarrow>
      (case if_truthy root of
        None \<Rightarrow>
          batch_loop e source_folder export_folder source_rig_root target_rig_root pre suf fs
            (print (''Skipping '' @ fbx_file @ '': No imported skeleton found.'') s1)
      | Some imported_root_joint \<Rightarrow>
          (case transfer_animation imported_root_joint source_rig_root s1 of
             Inl err \<Rightarrow> Inl err
           | Inr s2 \<Rightarrow>
          (case transfer_animation_ignore_namespace source_rig_root target_rig_root s2 of
             Inl err \<Rightarrow> Inl err
           | Inr s3 \<Rightarrow>
          (case export_fbx_animation e target_rig_root export_folder animation_name pre suf s3 of
             Inl err \<Rightarrow> Inl err
           | Inr s4 \<Rightarrow>
               batch_loop e source_folder export_folder source_rig_root target_rig_root pre suf fs
                 (delete_imported_skeleton e s4))))))"

definition batch_process_fbx ::
  "env \<Rightarrow> string \<Rightarrow> string \<Rightarrow> string \<Rightarrow> string \<Rightarrow> string \<Rightarrow> string \<Rightarrow> state \<Rightarrow> error + state" where
  "batch_process_fbx e source_folder export_folder source_rig_root target_rig_root pre suf s =
     (if \<not> path_exists s source_folder
      then Inr (print (''Source folder does not exist: '' @ source_folder) s)
      else
        let fbx_files = filter is_fbx (listdir e source_folder) in
        if fbx_files = []
        then Inr (print ''No FBX files found in the source folder.'' s)
        else
          case batch_loop e source_folder export_folder source_rig_root target_rig_root
                 pre suf fbx_files s of
            Inl err \<Rightarrow> Inl err
          | Inr s' \<Rightarrow> Inr (print ''Batch processing complete!'' s'))"

text \<open>The call with the defaults of the signature, \<open>prefix="Anim_"\<close> and \<open>suffix="_Final"\<close>.\<close>

definition batch_process_fbx_defaults ::
  "env \<Rightarrow> string \<Rightarrow> string \<Rightarrow> string \<Rightarrow> string \<Rightarrow> state \<Rightarrow> error + state" where
  "batch_process_fbx_defaults e source_folder export_folder source_rig_root target_rig_root s =
     batch_process_fbx e source_folder export_folder source_rig_root target_rig_root
       ''Anim_'' ''_Final'' s"

section \<open>The transfer as a list of copies\<close>

text \<open>
  For the proofs: what a run of the loop does to the curves, given the pairs of nodes
  (source, destination) it visits in order; the pairs that the two dicts of a transfer
  give; and the condition under which the loop can be run again without effect: two
  pairs with the same destination have the same source, and a pair whose destination is
  the source of a pair copies a node onto itself.
\<close>

fun run_pairs :: "(string \<times> string) list \<Rightarrow> (string \<Rightarrow> string \<Rightarrow> curve) \<Rightarrow> string \<Rightarrow> string \<Rightarrow> curve" where
  "run_pairs [] f = f"
| "run_pairs ((x, y) # ps) f =
     run_pairs ps (\<lambda>n a. if n = y \<and> a \<in> set tracked \<and> f x a \<noteq> [] then f x a else f n a)"

definition pairs_of :: "state \<Rightarrow> (string \<times> string) list \<Rightarrow> (string \<times> string) list \<Rightarrow> (string \<times> string) list" where
  "pairs_of s items rd =
     concat (map (\<lambda>(k, i). case map_of rd k of None \<Rightarrow> []
                              | Some r \<Rightarrow> [(node_of s i, node_of s r)]) items)"

definition no_chain :: "(string \<times> string) list \<Rightarrow> bool" where
  "no_chain ps \<longleftrightarrow>
     (\<forall>(x, y) \<in> set ps. \<forall>(x', y') \<in> set ps. (y = y' \<longrightarrow> x = x') \<and> (y = x' \<longrightarrow> x = y))"

section \<open>A scene to run the program on\<close>

text \<open>
  An imported skeleton \<open>|ns:Hips\<close>, rig A under the group \<open>RigA\<close> with the same joint names,
  rig B under the group \<open>RigB\<close> in the namespace \<open>b\<close>, and a camera. The imported root is keyed on \<open>translateX\<close> and on
  \<open>scaleX\<close>, a channel outside the tracked six; the imported spine is keyed on \<open>rotateZ\<close>;
  the spine of rig A already has a key on \<open>rotateX\<close>.
\<close>

definition demo_anim :: "string \<Rightarrow> string \<Rightarrow> curve" where
  "demo_anim n a =
     (if n = ''|ns:Hips'' \<and> a = ''translateX'' then [(1, 10), (2, 20)]
      else if n = ''|ns:Hips'' \<and> a = ''scaleX'' then [(1, 1)]
      else if n = ''|ns:Hips|ns:Spine'' \<and> a = ''rotateZ'' then [(1, 5)]
      else if n = ''|RigA|ns:Hips|ns:Spine'' \<and> a = ''rotateX'' then [(0, 7)]
      else [])"

definition demo :: state where
  "demo = \<lparr>joints = [''|ns:Hips'', ''|ns:Hips|ns:Spine'',
                      ''|RigA|ns:Hips'', ''|RigA|ns:Hips|ns:Spine'',
                      ''|RigB|b:Hips'', ''|RigB|b:Hips|b:Spine''],
            others = [''|RigA'', ''|RigB'', ''|persp''],
            extra_channels = [''scaleX''],
            anim = demo_anim,
            clipboard = [],
            selection = [],
            uuid = (\<lambda>n. ''uuid-of-'' @ n),
            locked = (\<lambda>n. False),
            paths = [''/anims'', ''/anims/Walk.fbx''],
            exported = [],
            fbx_loaded = True,
            imported_joint_uuids = [],
            log = []\<rparr>"

text \<open>
  The scene before the import, with the rigs only, and collaborators that behave: the
  import adds the skeleton \<open>|ns:Hips\<close>, except for the file \<open>Bad.fbx\<close>, on which it raises.
\<close>

definition studio :: state where
  "studio = demo\<lparr>joints := [''|RigA|ns:Hips'', ''|RigA|ns:Hips|ns:Spine'',
                             ''|RigB|b:Hips'', ''|RigB|b:Hips|b:Spine''],
                  paths := [''/anims'', ''/anims/Walk.fbx'',
                            ''/mixed'', ''/mixed/Bad.fbx'', ''/mixed/Walk.fbx'']\<rparr>"

definition demo_import :: "string \<Rightarrow> state \<Rightarrow> error + state" where
  "demo_import f s =
     (if f = ''/mixed/Bad.fbx'' then Inl RuntimeError
      else Inr (s\<lparr>joints := [''|ns:Hips'', ''|ns:Hips|ns:Spine''] @ joints s\<rparr>))"

definition demo_env :: env where
  "demo_env = \<lparr>set_order = (\<lambda>xs. xs),
                listdir = (\<lambda>d. if d = ''/anims'' then [''Walk.fbx'', ''notes.txt'']
                               else if d = ''/mixed'' then [''Bad.fbx'', ''Walk.FBX'']
                               else []),
                abspath = (\<lambda>p. p),
                fbx_import = demo_import,
                fbx_available = True,
                makedirs_fails = (\<lambda>p. False),
                fbx_export_fails = (\<lambda>p. False),
                cmds_delete = delete_cascade\<rparr>"

text \<open>Two rigs without namespaces, each a root with a hand; the hand of rig A is keyed.\<close>

definition plain :: state where
  "plain = demo\<lparr>joints := [''|RigA_Root'', ''|RigA_Root|Hand'', ''|RigB_Root'', ''|RigB_Root|Hand''],
                 anim := (\<lambda>n a. if n = ''|RigA_Root|Hand'' \<and> a = ''translateX'' then [(1, 3)] else [])\<rparr>"

section \<open>Lemmas\<close>

lemma if_truthy_None [simp]: "if_truthy None = None"
  by (simp add: if_truthy_def)

lemma if_truthy_Some [simp]: "if_truthy (Some r) = (if r = [] then None else Some r)"
  by (simp add: if_truthy_def)

lemma str_split_nonempty: "str_split c s \<noteq> []"
  by (induction s) (simp_all split: list.split)

lemma str_split_no_sep: "c \<notin> set s \<Longrightarrow> str_split c s = [s]"
  by (induction s) auto

lemma last_piece_no_sep: "c \<notin> set s \<Longrightarrow> last_piece c s = s"
  by (simp add: last_piece_def str_split_no_sep)


lemma dict_set_map_of: "map_of (dict_set k v d) = (map_of d)(k \<mapsto> v)"
  by (induction d) (auto simp: fun_eq_iff)

lemma dict_set_keys: "fst ` set (dict_set k v d) = insert k (fst ` set d)"
  using arg_cong [OF dict_set_map_of [of k v d], of dom]
  by (simp add: dom_map_of_conv_image_fst)

lemma dict_set_distinct: "distinct (map fst d) \<Longrightarrow> distinct (map fst (dict_set k v d))"
  by (induction d) (auto simp: dict_set_keys)

lemma dict_comp_snoc: "dict_comp key (js @ [j]) = dict_set (key j) j (dict_comp key js)"
  by (simp add: dict_comp_def)

lemma dict_comp_distinct: "distinct (map fst (dict_comp key js))"
  by (induction js rule: rev_induct) (simp_all add: dict_comp_snoc dict_set_distinct dict_comp_def)

lemma dict_comp_map_of:
  "map_of (dict_comp key js) k =
     (if filter (\<lambda>j. key j = k) js = [] then None else Some (last (filter (\<lambda>j. key j = k) js)))"
proof (induction js rule: rev_induct)
  case Nil
  show ?case by (simp add: dict_comp_def)
next
  case (snoc j js)
  then show ?case by (simp add: dict_comp_snoc dict_set_map_of)
qed

lemma node_of_cong: "nodes s' = nodes s \<Longrightarrow> node_of s' ref = node_of s ref"
  by (simp add: node_of_def ls_long_def)

lemma transfer_attr_joints: "joints (transfer_attr i r a s) = joints s"
  by (simp add: transfer_attr_def pasteKey_attr_def copyKey_attr_def)

lemma transfer_attr_nodes: "nodes (transfer_attr i r a s) = nodes s"
  by (simp add: transfer_attr_def pasteKey_attr_def copyKey_attr_def nodes_def)

lemma transfer_attr_anim:
  "anim (transfer_attr i r a s) =
     (if anim s (node_of s i) a \<noteq> []
      then (anim s)(node_of s r := (anim s (node_of s r))(a := anim s (node_of s i) a))
      else anim s)"
  by (simp add: transfer_attr_def pasteKey_attr_def copyKey_attr_def keyframeCount_attr_def
      paste_curves_def node_of_def ls_long_def nodes_def)

lemma fold_transfer_attr_joints: "joints (fold (transfer_attr i r) as s) = joints s"
  by (induction as arbitrary: s) (simp_all add: transfer_attr_joints)

lemma fold_transfer_attr_nodes: "nodes (fold (transfer_attr i r) as s) = nodes s"
  by (induction as arbitrary: s) (simp_all add: transfer_attr_nodes)

lemma fold_transfer_attr_other:
  "b \<notin> set as \<Longrightarrow> anim (fold (transfer_attr i r) as s) n b = anim s n b"
proof (induction as arbitrary: s)
  case Nil
  show ?case by simp
next
  case (Cons a as)
  then have "anim (fold (transfer_attr i r) as (transfer_attr i r a s)) n b
               = anim (transfer_attr i r a s) n b"
    by simp
  also have "\<dots> = anim s n b"
    using Cons.prems by (simp add: transfer_attr_anim)
  finally show ?case by simp
qed


lemma dict_long_dict_comp:
  "\<forall>j \<in> set js. objExists s j \<Longrightarrow>
   dict_long s js d =
     Inr (fold (\<lambda>j d. dict_set (last_piece CHR ''|'' (hd (ls_long s j))) j d) js d)"
proof (induction js arbitrary: d)
  case Nil
  show ?case by simp
next
  case (Cons j js)
  from Cons.prems obtain p ps where "ls_long s j = p # ps"
    by (cases "ls_long s j") (auto simp: objExists_def)
  with Cons show ?case by (simp add: long_key_def)
qed

section \<open>The hierarchy index\<close>

text \<open>
  Claim C9. Within one index every match key maps to exactly one joint: the keys of the
  dict are distinct. When several joints of the hierarchy have the same match key, the
  key maps to the one seen last, and building the index never fails on a collision:
  \<open>dict_comp\<close> is total, and the index of the first transfer, whose key can raise, is
  that same dict whenever every listed joint exists.
\<close>

theorem index_last_write_wins:
  "distinct (map fst (dict_comp key js)) \<and>
   map_of (dict_comp key js) k =
     (if filter (\<lambda>j. key j = k) js = [] then None
      else Some (last (filter (\<lambda>j. key j = k) js))) \<and>
   ((\<forall>j \<in> set js. objExists s j) \<longrightarrow>
      dict_long s js [] = Inr (dict_comp (\<lambda>j. last_piece CHR ''|'' (hd (ls_long s j))) js))"
  using dict_comp_distinct [of key js] dict_comp_map_of [of key js k]
    dict_long_dict_comp [of js s "[]"]
  by (simp add: dict_comp_def)

theorem index_last_write_wins_witness:
  "map_of (dict_comp remove_namespace [''ns1:Hand'', ''x:Arm'', ''ns2:Hand'']) ''Hand''
     = Some ''ns2:Hand'' \<and>
   objExists demo ''|ns:Hips'' \<and> objExists demo ''|RigA|ns:Hips'' \<and>
   dict_long demo [''|ns:Hips'', ''|RigA|ns:Hips''] [] = Inr [(''ns:Hips'', ''|RigA|ns:Hips'')]"
proof -
  have ex: "objExists demo ''|ns:Hips''" "objExists demo ''|RigA|ns:Hips''"
    by (simp_all add: objExists_def ls_long_def nodes_def demo_def)
  have "map_of (dict_comp remove_namespace [''ns1:Hand'', ''x:Arm'', ''ns2:Hand'']) ''Hand''
          = Some ''ns2:Hand''"
    using index_last_write_wins [of remove_namespace "[''ns1:Hand'', ''x:Arm'', ''ns2:Hand'']" "''Hand''" demo]
    by (simp add: remove_namespace_def last_piece_def)
  moreover have "dict_long demo [''|ns:Hips'', ''|RigA|ns:Hips''] [] = Inr [(''ns:Hips'', ''|RigA|ns:Hips'')]"
    by (simp add: long_key_def ls_long_def nodes_def demo_def last_piece_def)
  ultimately show ?thesis using ex by blast
qed

section \<open>Channels without keys\<close>




lemma the_node_error: "the_node s ref = Inl e \<Longrightarrow> e = ValueError"
  by (auto simp: the_node_def split: list.splits)

lemma the_node_missing: "\<not> objExists s ref \<Longrightarrow> the_node s ref = Inl ValueError"
  by (simp add: the_node_def objExists_def)

lemma listRelatives_error: "listRelatives s ref = Inl e \<Longrightarrow> e = ValueError"
  by (auto simp: listRelatives_def dest: the_node_error split: sum.splits)

lemma listRelatives_missing: "\<not> objExists s ref \<Longrightarrow> listRelatives s ref = Inl ValueError"
  by (simp add: listRelatives_def the_node_missing)

lemma transfer_pair_joints: "joints (transfer_pair i r s) = joints s"
  by (simp add: transfer_pair_def fold_transfer_attr_joints)

lemma transfer_pair_nodes: "nodes (transfer_pair i r s) = nodes s"
  by (simp add: transfer_pair_def fold_transfer_attr_nodes)

lemma transfer_pair_untracked:
  "b \<notin> set tracked \<Longrightarrow> anim (transfer_pair i r s) n b = anim s n b"
  by (simp add: transfer_pair_def fold_transfer_attr_other)

lemma transfer_loop_joints: "joints (transfer_loop items rd s) = joints s"
  by (induction items rd s rule: transfer_loop.induct)
     (simp_all add: transfer_pair_joints split: option.split)

lemma transfer_loop_nodes: "nodes (transfer_loop items rd s) = nodes s"
  by (induction items rd s rule: transfer_loop.induct)
     (simp_all add: transfer_pair_nodes split: option.split)

lemma transfer_loop_untracked:
  "b \<notin> set tracked \<Longrightarrow> anim (transfer_loop items rd s) n b = anim s n b"
  by (induction items rd s rule: transfer_loop.induct)
     (simp_all add: transfer_pair_untracked split: option.split)

lemma paste_curves_copied:
  "paste_curves (map (\<lambda>a. (a, f a)) (filter P ks)) g a
     = (if a \<in> set ks \<and> P a then f a else g a)"
  unfolding paste_curves_def
  by (induction ks arbitrary: g) auto

lemma node_of_print: "node_of (print m s) ref = node_of s ref"
  by (rule node_of_cong) (simp add: print_def nodes_def)

lemma root_paste_anim:
  "anim (pasteKey rig_root (copyKey imported_root (print m s))) (node_of s rig_root) a
     = (if a \<in> set (keyable s) \<and> anim s (node_of s imported_root) a \<noteq> []
        then anim s (node_of s imported_root) a
        else anim s (node_of s rig_root) a)"
proof -
  let ?t = "print m s"
  have n: "node_of (copyKey imported_root ?t) rig_root = node_of s rig_root"
    using node_of_cong [of "copyKey imported_root ?t" ?t rig_root]
    by (simp add: copyKey_def node_of_print nodes_def)
  have k: "keyable ?t = keyable s" and a: "anim ?t = anim s"
    by (simp_all add: keyable_def print_def)
  show ?thesis
    by (simp add: pasteKey_def n) (simp add: copyKey_def paste_curves_copied node_of_print k a)
qed

lemma keyed_root_count:
  "a \<in> set (keyable s) \<Longrightarrow> anim s (node_of s ref) a \<noteq> [] \<Longrightarrow> 0 < keyframeCount s ref"
proof -
  assume a: "a \<in> set (keyable s)" and k: "anim s (node_of s ref) a \<noteq> []"
  have "length (anim s (node_of s ref) a)
          \<le> sum_list (map (\<lambda>a. length (anim s (node_of s ref) a)) (keyable s))"
    using a by (simp add: member_le_sum_list)
  with k show ?thesis
    by (cases "anim s (node_of s ref) a") (simp_all add: keyframeCount_def)
qed

lemma transfer_animation_loop:
  assumes "transfer_animation imported_root rig_root s = Inr s1"
    and "objExists s imported_root" "objExists s rig_root"
  shows "\<exists>d1 d2. s1 = transfer_loop d1 d2 (root_motion imported_root rig_root s)"
  using assms
  by (auto simp: transfer_animation_def split: sum.splits)

lemma transfer_ns_untracked:
  assumes "transfer_animation_ignore_namespace source_root target_root s = Inr s2"
    and "a \<notin> set tracked"
  shows "anim s2 n a = anim s n a"
  using assms
  by (auto simp: transfer_animation_ignore_namespace_def print_def transfer_loop_untracked
      split: sum.splits)

lemma transfer_ns_missing:
  "\<not> objExists s source_root \<or> \<not> objExists s target_root \<Longrightarrow>
   transfer_animation_ignore_namespace source_root target_root s = Inl ValueError"
  by (auto simp: transfer_animation_ignore_namespace_def listRelatives_missing
      dest: listRelatives_error split: sum.splits)


section \<open>Roots that are not in the scene\<close>

text \<open>
  Claim C10. When the imported root or the rig root names no node of the scene, the
  transfer from the imported skeleton to the rig emits its warning and returns: the
  result is the scene with the warning appended to the log, and every animation curve
  of every joint is as it was. The transfer that ignores namespaces has no such guard:
  with a root that names no node it does not return, \<open>listRelatives\<close> raises \<open>ValueError\<close>.
\<close>

theorem missing_root_guard:
  "(\<not> objExists s imported_root \<or> \<not> objExists s rig_root \<longrightarrow>
      transfer_animation imported_root rig_root s
        = Inr (warning ''Imported or rig root not found. Skipping transfer.'' s) \<and>
      anim (warning ''Imported or rig root not found. Skipping transfer.'' s) = anim s \<and>
      log (warning ''Imported or rig root not found. Skipping transfer.'' s)
        = log s @ [Warning ''Imported or rig root not found. Skipping transfer.'']) \<and>
   (\<not> objExists s source_root \<or> \<not> objExists s target_root \<longrightarrow>
      transfer_animation_ignore_namespace source_root target_root s = Inl ValueError)"
  using transfer_ns_missing [of s source_root target_root]
  by (auto simp: transfer_animation_def warning_def)

theorem missing_root_guard_witness:
  "\<not> objExists demo ''Gone'' \<and>
   transfer_animation ''|ns:Hips'' ''Gone'' demo
     = Inr (warning ''Imported or rig root not found. Skipping transfer.'' demo) \<and>
   anim (warning ''Imported or rig root not found. Skipping transfer.'' demo) = anim demo \<and>
   transfer_animation_ignore_namespace ''Gone'' ''b:Hips'' demo = Inl ValueError"
proof -
  have g: "\<not> objExists demo ''Gone''"
    by (simp add: objExists_def ls_long_def nodes_def demo_def suffix_to_prefix)
  show ?thesis
    using g missing_root_guard [of demo "''|ns:Hips''" "''Gone''" "''Gone''" "''b:Hips''"]
    by simp
qed

section \<open>Root motion\<close>

text \<open>
  Claim C4. In the transfer from the imported skeleton to rig A, when the imported root
  has a key, the loop over the matched pairs starts from the scene in which every keyed
  channel of the imported root, tracked or not, has been copied once onto the root of
  rig A, where it replaces the curve of that channel; a keyed channel outside the six
  tracked ones is still there when the transfer returns. The transfer from rig A to
  rig B copies no such set: it leaves every channel outside the six tracked ones as it
  was on every node, so such a channel reaches the root of rig A and not that of rig B.
\<close>

theorem root_motion_composite_copy:
  "(transfer_animation imported_root rig_root s = Inr s1 \<and>
    objExists s imported_root \<and> objExists s rig_root \<and> 0 < keyframeCount s imported_root \<longrightarrow>
      (\<exists>d1 d2. s1 = transfer_loop d1 d2
         (pasteKey rig_root (copyKey imported_root (print ''Transferring root motion...'' s)))) \<and>
      (\<forall>a \<in> set (keyable s). anim s (node_of s imported_root) a \<noteq> [] \<longrightarrow>
         anim (pasteKey rig_root (copyKey imported_root (print ''Transferring root motion...'' s)))
              (node_of s rig_root) a
           = anim s (node_of s imported_root) a) \<and>
      (\<forall>a \<in> set (keyable s). a \<notin> set tracked \<longrightarrow> anim s (node_of s imported_root) a \<noteq> [] \<longrightarrow>
         anim s1 (node_of s rig_root) a = anim s (node_of s imported_root) a)) \<and>
   (transfer_animation_ignore_namespace source_root target_root s = Inr s2 \<longrightarrow>
      (\<forall>n a. a \<notin> set tracked \<longrightarrow> anim s2 n a = anim s n a))"
proof (intro conjI impI)
  assume h: "transfer_animation imported_root rig_root s = Inr s1 \<and>
    objExists s imported_root \<and> objExists s rig_root \<and> 0 < keyframeCount s imported_root"
  then obtain d1 d2 where
    s1: "s1 = transfer_loop d1 d2 (root_motion imported_root rig_root s)"
    using transfer_animation_loop by blast
  moreover have rm: "root_motion imported_root rig_root s
      = pasteKey rig_root (copyKey imported_root (print ''Transferring root motion...'' s))"
    using h by (simp add: root_motion_def)
  ultimately show "\<exists>d1 d2. s1 = transfer_loop d1 d2
      (pasteKey rig_root (copyKey imported_root (print ''Transferring root motion...'' s)))"
    by auto
  show "\<forall>a \<in> set (keyable s). anim s (node_of s imported_root) a \<noteq> [] \<longrightarrow>
         anim (pasteKey rig_root (copyKey imported_root (print ''Transferring root motion...'' s)))
              (node_of s rig_root) a
           = anim s (node_of s imported_root) a"
    by (simp add: root_paste_anim)
  show "\<forall>a \<in> set (keyable s). a \<notin> set tracked \<longrightarrow> anim s (node_of s imported_root) a \<noteq> [] \<longrightarrow>
         anim s1 (node_of s rig_root) a = anim s (node_of s imported_root) a"
    by (simp add: s1 rm transfer_loop_untracked root_paste_anim)
next
  assume "transfer_animation_ignore_namespace source_root target_root s = Inr s2"
  then show "\<forall>n a. a \<notin> set tracked \<longrightarrow> anim s2 n a = anim s n a"
    by (simp add: transfer_ns_untracked)
qed

lemma demo_transfer_returns:
  "\<exists>s1. transfer_animation ''|ns:Hips'' ''RigA|ns:Hips'' demo = Inr s1"
  by (simp add: transfer_animation_def objExists_def listRelatives_def the_node_def
      ls_long_def nodes_def long_key_def demo_def suffix_to_prefix)

lemma demo_transfer_ns_returns:
  "\<exists>s2. transfer_animation_ignore_namespace ''RigA|ns:Hips'' ''b:Hips'' demo = Inr s2"
  by (simp add: transfer_animation_ignore_namespace_def listRelatives_def the_node_def
      ls_long_def nodes_def demo_def suffix_to_prefix)

theorem root_motion_composite_copy_witness:
  "objExists demo ''|ns:Hips'' \<and> objExists demo ''RigA|ns:Hips'' \<and>
   0 < keyframeCount demo ''|ns:Hips'' \<and>
   (\<exists>s1. transfer_animation ''|ns:Hips'' ''RigA|ns:Hips'' demo = Inr s1 \<and>
      anim s1 ''|RigA|ns:Hips'' ''scaleX'' = [(1, 1)]) \<and>
   (\<exists>s2. transfer_animation_ignore_namespace ''RigA|ns:Hips'' ''b:Hips'' demo = Inr s2 \<and>
      anim s2 ''|RigB|b:Hips'' ''scaleX'' = [])"
proof -
  have e1: "objExists demo ''|ns:Hips''" and e2: "objExists demo ''RigA|ns:Hips''"
    by (simp_all add: objExists_def ls_long_def nodes_def demo_def suffix_to_prefix)
  have n1: "node_of demo ''|ns:Hips'' = ''|ns:Hips''"
    and n2: "node_of demo ''RigA|ns:Hips'' = ''|RigA|ns:Hips''"
    by (simp_all add: node_of_def ls_long_def nodes_def demo_def suffix_to_prefix)
  have k: "0 < keyframeCount demo ''|ns:Hips''"
    by (simp add: keyframeCount_def n1 keyable_def tracked_def) (simp add: demo_def demo_anim_def)
  have sx: "''scaleX'' \<in> set (keyable demo)" "''scaleX'' \<notin> set tracked"
    by (simp_all add: keyable_def tracked_def demo_def)
  have a0: "anim demo ''|ns:Hips'' ''scaleX'' = [(1, 1)]"
    "anim demo ''|RigB|b:Hips'' ''scaleX'' = []"
    by (simp_all add: demo_def demo_anim_def)
  obtain s1 where s1: "transfer_animation ''|ns:Hips'' ''RigA|ns:Hips'' demo = Inr s1"
    using demo_transfer_returns by blast
  obtain s2 where s2: "transfer_animation_ignore_namespace ''RigA|ns:Hips'' ''b:Hips'' demo = Inr s2"
    using demo_transfer_ns_returns by blast
  have "anim s1 ''|RigA|ns:Hips'' ''scaleX'' = [(1, 1)]"
    and "anim s2 ''|RigB|b:Hips'' ''scaleX'' = []"
    using root_motion_composite_copy [of "''|ns:Hips''" "''RigA|ns:Hips''" demo s1
        "''RigA|ns:Hips''" "''b:Hips''" s2] s1 s2 e1 e2 k sx a0
    by (auto simp: n1 n2)
  with s1 s2 e1 e2 k show ?thesis by blast
qed


lemma find_SomeD: "find P xs = Some x \<Longrightarrow> x \<in> set xs \<and> P x"
  by (auto simp: find_Some_iff)

section \<open>The root of the imported skeleton\<close>

text \<open>
  Claim C3. \<open>get_new_root_joint\<close> works on the set difference of the joints listed after
  the import and those listed before it (whatever the order in which the set is
  iterated). A joint it returns is one of these new joints and has no parent, so none in
  the difference set. It returns \<open>None\<close>, with a warning, exactly when there is no new
  joint or every new joint has a parent.
\<close>

theorem new_root_joint:
  assumes "\<forall>xs. set (set_order e xs) = set xs"
  shows "set (new_joints e before_import (ls_joints s)) = set (ls_joints s) - set before_import \<and>
    (\<forall>j. fst (get_new_root_joint e before_import s) = Some j \<longrightarrow>
       j \<in> set (ls_joints s) - set before_import \<and>
       listRelatives_parent s j = [] \<and>
       set (listRelatives_parent s j) \<inter> (set (ls_joints s) - set before_import) = {}) \<and>
    (fst (get_new_root_joint e before_import s) = None \<longleftrightarrow>
       set (ls_joints s) - set before_import = {} \<or>
       (\<forall>j \<in> set (ls_joints s) - set before_import. listRelatives_parent s j \<noteq> [])) \<and>
    (fst (get_new_root_joint e before_import s) = None \<longrightarrow>
       (\<exists>m. log (snd (get_new_root_joint e before_import s)) = log s @ [Warning m]))"
proof -
  let ?new = "new_joints e before_import (ls_joints s)"
  have new: "set ?new = set (ls_joints s) - set before_import"
    using assms by (auto simp: new_joints_def)
  have some: "fst (get_new_root_joint e before_import s) = Some j \<Longrightarrow>
      j \<in> set ?new \<and> listRelatives_parent s j = []" for j
    by (auto simp: get_new_root_joint_def Let_def split: if_splits option.splits dest: find_SomeD)
  have none: "fst (get_new_root_joint e before_import s) = None \<longleftrightarrow>
      ?new = [] \<or> (\<forall>j \<in> set ?new. listRelatives_parent s j \<noteq> [])"
    by (auto simp: get_new_root_joint_def Let_def find_None_iff split: if_splits option.splits
        dest: find_SomeD)
  have warn: "fst (get_new_root_joint e before_import s) = None \<Longrightarrow>
      \<exists>m. log (snd (get_new_root_joint e before_import s)) = log s @ [Warning m]"
    by (auto simp: get_new_root_joint_def Let_def warning_def split: if_splits option.splits)
  have empty: "?new = [] \<longleftrightarrow> set (ls_joints s) - set before_import = {}"
    using new by (metis set_empty)
  show ?thesis
    using new some none warn empty by auto
qed

theorem new_root_joint_witness:
  "fst (get_new_root_joint demo_env
         [''|RigA|ns:Hips'', ''|RigA|ns:Hips|ns:Spine'', ''|RigB|b:Hips'', ''|RigB|b:Hips|b:Spine'']
         demo) = Some ''|ns:Hips'' \<and>
   fst (get_new_root_joint demo_env (joints demo) demo) = None \<and>
   fst (get_new_root_joint demo_env
         [''|ns:Hips'', ''|RigA|ns:Hips'', ''|RigA|ns:Hips|ns:Spine'', ''|RigB|b:Hips'', ''|RigB|b:Hips|b:Spine'']
         demo) = None \<and>
   listRelatives_parent demo ''|ns:Hips|ns:Spine'' = [''|ns:Hips'']"
proof -
  have p: "\<forall>xs. set (set_order demo_env xs) = set xs"
    by (simp add: demo_env_def)
  have n: "node_of demo ''|ns:Hips|ns:Spine'' = ''|ns:Hips|ns:Spine''"
    "node_of demo ''|ns:Hips'' = ''|ns:Hips''"
    by (simp_all add: node_of_def ls_long_def nodes_def demo_def)
  have par: "listRelatives_parent demo ''|ns:Hips|ns:Spine'' = [''|ns:Hips'']"
    "listRelatives_parent demo ''|ns:Hips'' = []"
    by (simp_all add: listRelatives_parent_def n parent_path_def)
  have j: "joints demo = [''|ns:Hips'', ''|ns:Hips|ns:Spine'',
                      ''|RigA|ns:Hips'', ''|RigA|ns:Hips|ns:Spine'',
                      ''|RigB|b:Hips'', ''|RigB|b:Hips|b:Spine'']"
    by (simp add: demo_def)
  have a: "fst (get_new_root_joint demo_env
         [''|RigA|ns:Hips'', ''|RigA|ns:Hips|ns:Spine'', ''|RigB|b:Hips'', ''|RigB|b:Hips|b:Spine'']
         demo) = Some ''|ns:Hips''"
    by (simp add: get_new_root_joint_def new_joints_def ls_joints_def j par)
       (simp add: demo_env_def par)
  have b: "fst (get_new_root_joint demo_env (joints demo) demo) = None"
    using new_root_joint [OF p, of "joints demo" demo, THEN conjunct2, THEN conjunct2, THEN conjunct1]
    by (simp add: ls_joints_def)
  have d: "set (ls_joints demo) - set [''|ns:Hips'', ''|RigA|ns:Hips'', ''|RigA|ns:Hips|ns:Spine'',
              ''|RigB|b:Hips'', ''|RigB|b:Hips|b:Spine''] = {''|ns:Hips|ns:Spine''}"
    by (simp add: ls_joints_def j insert_Diff_if)
  have c: "fst (get_new_root_joint demo_env
         [''|ns:Hips'', ''|RigA|ns:Hips'', ''|RigA|ns:Hips|ns:Spine'', ''|RigB|b:Hips'', ''|RigB|b:Hips|b:Spine'']
         demo) = None"
    using new_root_joint [OF p, of "[''|ns:Hips'', ''|RigA|ns:Hips'', ''|RigA|ns:Hips|ns:Spine'', ''|RigB|b:Hips'', ''|RigB|b:Hips|b:Spine'']" demo,
        THEN conjunct2, THEN conjunct2, THEN conjunct1]
    unfolding d by (simp add: par)
  show ?thesis using a b c par by simp
qed






















lemma export_raises:
  "export_fbx_animation e rig_root folder name pre suf s = Inl err \<Longrightarrow>
   err = RuntimeError \<and> \<not> fbx_loaded s \<and> \<not> fbx_available e"
  by (auto simp: export_fbx_animation_def Let_def makedirs_def print_def split: if_splits)

lemma batch_loop_missing_files:
  "\<forall>f \<in> set fs. \<not> path_exists s (replace_backslash (path_join sf f)) \<Longrightarrow>
   batch_loop e sf ef a b pre suf fs s =
     Inr (s\<lparr>imported_joint_uuids := (if fs = [] then imported_joint_uuids s else []),
            log := log s @ concat (map (\<lambda>f.
               [Print (''Processing: '' @ replace_backslash (path_join sf f)),
                Warning (''FBX file does not exist: '' @ replace_backslash (path_join sf f)),
                Print (''Skipping '' @ f @ '': No imported skeleton found.'')]) fs)\<rparr>)"
proof (induction fs arbitrary: s)
  case Nil
  show ?case by simp
next
  case (Cons f fs)
  let ?p = "replace_backslash (path_join sf f)"
  let ?s1 = "s\<lparr>imported_joint_uuids := [],
               log := log s @ [Print (''Processing: '' @ ?p),
                 Warning (''FBX file does not exist: '' @ ?p),
                 Print (''Skipping '' @ f @ '': No imported skeleton found.'')]\<rparr>"
  have miss: "\<not> path_exists s ?p" using Cons.prems by simp
  have step: "batch_loop e sf ef a b pre suf (f # fs) s = batch_loop e sf ef a b pre suf fs ?s1"
    using miss
    by (simp add: Let_def import_fbx_animation_def path_exists_def print_def warning_def)
  have "\<forall>g \<in> set fs. \<not> path_exists ?s1 (replace_backslash (path_join sf g))"
    using Cons.prems by (simp add: path_exists_def)
  from Cons.IH [OF this] show ?case
    by (simp only: step) (cases fs; simp)
qed

lemma map_sum_Inl: "map_sum id g x = Inl e \<Longrightarrow> x = Inl e"
  by (cases x) auto

lemma map_sum_Inr: "map_sum id g x = Inr v \<Longrightarrow> \<exists>y. x = Inr y \<and> g y = v"
  by (cases x) auto

section \<open>The exported file\<close>



lemma demo_export_run:
  "map_sum id exported
     (export_fbx_animation demo_env ''b:Hips'' ''/out'' ''Walk'' ''Anim_'' ''_Final'' demo)
   = Inr [''/out/Anim_Walk_Final.fbx'']"
  by code_simp






section \<open>Failures in the batch\<close>

text \<open>
  Claim C1, as stated: a failure raised for one file is caught at the per-file boundary,
  the remaining files are processed and no exception leaves \<open>batch_process_fbx\<close>. The loop
  has no \<open>try\<close>. In the folder \<open>/mixed\<close> the import of the first file raises, and the
  batch ends with that exception, the second file unprocessed; with a source rig root
  that is not in the scene, \<open>listRelatives\<close> raises in the second transfer and the batch
  ends with that exception.
\<close>

lemma demo_batch_bad_file:
  "map_sum id (\<lambda>s. ())
     (batch_process_fbx_defaults demo_env ''/mixed'' ''/out'' ''RigA|ns:Hips'' ''b:Hips'' studio)
   = Inl RuntimeError"
  by code_simp

lemma demo_batch_missing_rig:
  "map_sum id (\<lambda>s. ())
     (batch_process_fbx_defaults demo_env ''/anims'' ''/out'' ''Gone'' ''b:Hips'' studio)
   = Inl ValueError"
  by code_simp

theorem batch_exception_counterexample:
  "batch_process_fbx_defaults demo_env ''/mixed'' ''/out'' ''RigA|ns:Hips'' ''b:Hips'' studio
     = Inl RuntimeError \<and>
   filter is_fbx (listdir demo_env ''/mixed'') = [''Bad.fbx'', ''Walk.FBX''] \<and>
   batch_process_fbx_defaults demo_env ''/anims'' ''/out'' ''Gone'' ''b:Hips'' studio
     = Inl ValueError"
proof -
  have "filter is_fbx (listdir demo_env ''/mixed'') = [''Bad.fbx'', ''Walk.FBX'']"
    by code_simp
  with map_sum_Inl [OF demo_batch_bad_file] map_sum_Inl [OF demo_batch_missing_rig]
  show ?thesis by simp
qed

text \<open>
  Claim C1, amended. A failure that a stage reports by returning does not stop the
  batch: a file whose import yields no root (\<open>None\<close>, or a name that Python takes for
  false) is skipped and the loop goes on with the
  next file (so a batch of files that do not exist skips every one of them and
  returns), and a file whose stages all return is followed by the deletion, which
  catches the exception of \<open>cmds.delete\<close>, and by the next file. The export raises only
  when the plug-in cannot be loaded; a failure of \<open>os.makedirs\<close> or of \<open>FBXExport\<close> is
  caught inside it. An exception raised by the import, by a transfer or by the export
  is caught nowhere: the loop ends with it, whatever files remain, and so does
  \<open>batch_process_fbx\<close>.
\<close>

theorem batch_failure_isolation:
  "(import_fbx_animation e (replace_backslash (path_join sf f))
      (print (''Processing: '' @ replace_backslash (path_join sf f)) s) = Inl err \<longrightarrow>
      batch_loop e sf ef a b pre suf (f # fs) s = Inl err) \<and>
   (import_fbx_animation e (replace_backslash (path_join sf f))
      (print (''Processing: '' @ replace_backslash (path_join sf f)) s) = Inr (root, s1) \<and>
    if_truthy root = None \<longrightarrow>
      batch_loop e sf ef a b pre suf (f # fs) s =
        batch_loop e sf ef a b pre suf fs
          (print (''Skipping '' @ f @ '': No imported skeleton found.'') s1)) \<and>
   (import_fbx_animation e (replace_backslash (path_join sf f))
      (print (''Processing: '' @ replace_backslash (path_join sf f)) s) = Inr (root, s1) \<and>
    if_truthy root = Some r \<and>
    transfer_animation r a s1 = Inr s2 \<and>
    transfer_animation_ignore_namespace a b s2 = Inr s3 \<and>
    export_fbx_animation e b ef (splitext_root f) pre suf s3 = Inr s4 \<longrightarrow>
      batch_loop e sf ef a b pre suf (f # fs) s =
        batch_loop e sf ef a b pre suf fs (delete_imported_skeleton e s4)) \<and>
   (import_fbx_animation e (replace_backslash (path_join sf f))
      (print (''Processing: '' @ replace_backslash (path_join sf f)) s) = Inr (root, s1) \<and>
    if_truthy root = Some r \<and>
    (transfer_animation r a s1 = Inl err \<or>
     transfer_animation r a s1 = Inr s2 \<and>
       (transfer_animation_ignore_namespace a b s2 = Inl err \<or>
        transfer_animation_ignore_namespace a b s2 = Inr s3 \<and>
          export_fbx_animation e b ef (splitext_root f) pre suf s3 = Inl err)) \<longrightarrow>
      batch_loop e sf ef a b pre suf (f # fs) s = Inl err) \<and>
   (export_fbx_animation e rig_root folder name pre suf s = Inl err \<longrightarrow>
      err = RuntimeError \<and> \<not> fbx_loaded s \<and> \<not> fbx_available e) \<and>
   ((\<forall>g \<in> set gs. \<not> path_exists s (replace_backslash (path_join sf g))) \<longrightarrow>
      batch_loop e sf ef a b pre suf gs s =
        Inr (s\<lparr>imported_joint_uuids := (if gs = [] then imported_joint_uuids s else []),
               log := log s @ concat (map (\<lambda>f.
                 [Print (''Processing: '' @ replace_backslash (path_join sf f)),
                  Warning (''FBX file does not exist: '' @ replace_backslash (path_join sf f)),
                  Print (''Skipping '' @ f @ '': No imported skeleton found.'')]) gs)\<rparr>)) \<and>
   (path_exists s sf \<and> filter is_fbx (listdir e sf) \<noteq> [] \<and>
    batch_loop e sf ef a b pre suf (filter is_fbx (listdir e sf)) s = Inl err \<longrightarrow>
      batch_process_fbx e sf ef a b pre suf s = Inl err)"
proof (intro conjI impI)
  show "err = RuntimeError" "\<not> fbx_loaded s" "\<not> fbx_available e"
    if "export_fbx_animation e rig_root folder name pre suf s = Inl err"
    using export_raises [OF that] by simp_all
  show "batch_loop e sf ef a b pre suf gs s =
        Inr (s\<lparr>imported_joint_uuids := (if gs = [] then imported_joint_uuids s else []),
               log := log s @ concat (map (\<lambda>f.
                 [Print (''Processing: '' @ replace_backslash (path_join sf f)),
                  Warning (''FBX file does not exist: '' @ replace_backslash (path_join sf f)),
                  Print (''Skipping '' @ f @ '': No imported skeleton found.'')]) gs)\<rparr>)"
    if "\<forall>g \<in> set gs. \<not> path_exists s (replace_backslash (path_join sf g))"
    using that by (rule batch_loop_missing_files)
qed (auto simp: Let_def batch_process_fbx_def)

theorem batch_failure_isolation_witness:
  "batch_loop demo_env ''/mixed'' ''/out'' ''RigA|ns:Hips'' ''b:Hips'' ''Anim_'' ''_Final''
     [''Bad.fbx'', ''Walk.FBX''] studio = Inl RuntimeError \<and>
   \<not> path_exists studio (replace_backslash (path_join ''/none'' ''a.fbx'')) \<and>
   \<not> path_exists studio (replace_backslash (path_join ''/none'' ''b.fbx'')) \<and>
   map_sum id log
     (batch_loop demo_env ''/none'' ''/out'' ''RigA|ns:Hips'' ''b:Hips'' ''Anim_'' ''_Final''
        [''a.fbx'', ''b.fbx''] studio)
     = Inr [Print ''Processing: /none/a.fbx'', Warning ''FBX file does not exist: /none/a.fbx'',
            Print ''Skipping a.fbx: No imported skeleton found.'',
            Print ''Processing: /none/b.fbx'', Warning ''FBX file does not exist: /none/b.fbx'',
            Print ''Skipping b.fbx: No imported skeleton found.'']"
proof -
  have imp: "import_fbx_animation demo_env (replace_backslash (path_join ''/mixed'' ''Bad.fbx''))
      (print (''Processing: '' @ replace_backslash (path_join ''/mixed'' ''Bad.fbx'')) studio)
      = Inl RuntimeError"
    by (simp add: import_fbx_animation_def Let_def path_exists_def print_def studio_def
        replace_backslash_def path_join_def demo_env_def demo_import_def suffix_to_prefix)
  have a: "batch_loop demo_env ''/mixed'' ''/out'' ''RigA|ns:Hips'' ''b:Hips'' ''Anim_'' ''_Final''
     [''Bad.fbx'', ''Walk.FBX''] studio = Inl RuntimeError"
    using batch_failure_isolation [of demo_env "''/mixed''" "''Bad.fbx''" studio RuntimeError
        "''/out''" "''RigA|ns:Hips''" "''b:Hips''" "''Anim_''" "''_Final''" "[''Walk.FBX'']"] imp
    by blast
  have m: "\<not> path_exists studio (replace_backslash (path_join ''/none'' ''a.fbx''))"
    "\<not> path_exists studio (replace_backslash (path_join ''/none'' ''b.fbx''))"
    by (simp_all add: path_exists_def studio_def replace_backslash_def path_join_def
        suffix_to_prefix)
  have l: "log studio = []" by (simp add: studio_def demo_def)
  have b: "map_sum id log
     (batch_loop demo_env ''/none'' ''/out'' ''RigA|ns:Hips'' ''b:Hips'' ''Anim_'' ''_Final''
        [''a.fbx'', ''b.fbx''] studio)
     = Inr [Print ''Processing: /none/a.fbx'', Warning ''FBX file does not exist: /none/a.fbx'',
            Print ''Skipping a.fbx: No imported skeleton found.'',
            Print ''Processing: /none/b.fbx'', Warning ''FBX file does not exist: /none/b.fbx'',
            Print ''Skipping b.fbx: No imported skeleton found.'']"
    by code_simp
  from a m b show ?thesis by simp
qed

section \<open>The list of UUIDs after the deletion\<close>

text \<open>
  Claim C5. The deletion resolves the first UUID of the list to a node, unlocks the node,
  deletes it, reports a node that is still there, and clears the list. The code leaves
  the function by an early \<open>return\<close> when no node has that UUID, before the list is
  cleared: with the list \<open>[stale]\<close>, a UUID of no node, the list is still \<open>[stale]\<close> after
  the call, and the closing message is not printed. With the UUIDs of the imported
  skeleton the root and the joint below it are deleted and the list is cleared.
\<close>

theorem delete_early_return_keeps_uuids:
  "imported_joint_uuids
     (delete_imported_skeleton demo_env (demo\<lparr>imported_joint_uuids := [''stale'']\<rparr>))
     = [''stale''] \<and>
   log (delete_imported_skeleton demo_env (demo\<lparr>imported_joint_uuids := [''stale'']\<rparr>))
     = [Print ''Starting delete_imported_skeleton()...'',
        Print ''Processing only the root joint UUID: stale'',
        Print ''No root joint found for UUID stale''] \<and>
   imported_joint_uuids
     (delete_imported_skeleton demo_env
        (demo\<lparr>imported_joint_uuids := [''uuid-of-|ns:Hips'', ''uuid-of-|ns:Hips|ns:Spine'']\<rparr>))
     = [] \<and>
   joints
     (delete_imported_skeleton demo_env
        (demo\<lparr>imported_joint_uuids := [''uuid-of-|ns:Hips'', ''uuid-of-|ns:Hips|ns:Spine'']\<rparr>))
     = [''|RigA|ns:Hips'', ''|RigA|ns:Hips|ns:Spine'', ''|RigB|b:Hips'', ''|RigB|b:Hips|b:Spine''] \<and>
   log
     (delete_imported_skeleton demo_env
        (demo\<lparr>imported_joint_uuids := [''uuid-of-|ns:Hips'', ''uuid-of-|ns:Hips|ns:Spine'']\<rparr>))
     = [Print ''Starting delete_imported_skeleton()...'',
        Print ''Processing only the root joint UUID: uuid-of-|ns:Hips'',
        Print ''Root joint identified: |ns:Hips'',
        Print ''Deleting |ns:Hips (this will remove all child joints too)...'',
        Print ''Successfully deleted the skeleton!'',
        Print ''Finished delete_imported_skeleton().'']"
  by code_simp

section \<open>The match key\<close>

text \<open>
  Claim C2. The match key of a joint is its local name in the first transfer, and its
  local name without the namespace in the second, so that \<open>ns1:Hand\<close> and \<open>ns2:Hand\<close> match
  in the second and not in the first. The second transfer applies \<open>remove_namespace\<close>
  to the full path that \<open>listRelatives\<close> returns, not to the local name: a path without
  a colon is its own key. The hands of two rigs without namespaces, \<open>|RigA_Root|Hand\<close>
  and \<open>|RigB_Root|Hand\<close>, have the same local name and different keys; the second
  transfer does not match them and the keys of the hand of rig A do not reach rig B.
  With namespaces on every joint the keys are the local names without them.
\<close>

theorem remove_namespace_on_full_paths:
  "remove_namespace ''|RigA_Root|Hand'' = ''|RigA_Root|Hand'' \<and>
   remove_namespace ''|RigB_Root|Hand'' = ''|RigB_Root|Hand'' \<and>
   map_sum id (\<lambda>s. (anim s ''|RigA_Root|Hand'' ''translateX'', anim s ''|RigB_Root|Hand'' ''translateX''))
     (transfer_animation_ignore_namespace ''RigA_Root'' ''RigB_Root'' plain) = Inr ([(1, 3)], []) \<and>
   remove_namespace ''|a:Root|a:Arm|Hand'' = ''Arm|Hand'' \<and>
   remove_namespace ''|ns1:Root|ns1:Hand'' = ''Hand'' \<and>
   remove_namespace ''|ns2:Root|ns2:Hand'' = ''Hand'' \<and>
   last_piece CHR ''|'' ''|ns1:Root|ns1:Hand'' = ''ns1:Hand'' \<and>
   last_piece CHR ''|'' ''|ns2:Root|ns2:Hand'' = ''ns2:Hand''"
  by code_simp


lemma no_chain_Cons: "no_chain (p # ps) \<Longrightarrow> no_chain ps"
  by (auto simp: no_chain_def)

lemma run_pairs_self:
  "\<forall>(x', y') \<in> set ps. y' = z \<longrightarrow> x' = z \<Longrightarrow> run_pairs ps f z a = f z a"
proof (induction ps arbitrary: f)
  case Nil
  show ?case by simp
next
  case (Cons p ps)
  obtain x y where p: "p = (x, y)" by (cases p)
  let ?f = "\<lambda>n a. if n = y \<and> a \<in> set tracked \<and> f x a \<noteq> [] then f x a else f n a"
  have "run_pairs ps ?f z a = ?f z a"
    using Cons.prems by (intro Cons.IH) simp
  moreover have "?f z a = f z a"
    using Cons.prems by (auto simp: p)
  ultimately show ?case by (simp add: p)
qed

lemma run_pairs_source:
  "no_chain ps \<Longrightarrow> (x, y) \<in> set ps \<Longrightarrow> run_pairs ps f x a = f x a"
  by (rule run_pairs_self) (auto simp: no_chain_def)

lemma run_pairs_unkeyed:
  "no_chain ps \<Longrightarrow> \<forall>x. (x, n) \<in> set ps \<longrightarrow> f x a = [] \<Longrightarrow> run_pairs ps f n a = f n a"
proof (induction ps arbitrary: f)
  case Nil
  show ?case by simp
next
  case (Cons p ps)
  obtain x0 y0 where p: "p = (x0, y0)" by (cases p)
  let ?f = "\<lambda>n a. if n = y0 \<and> a \<in> set tracked \<and> f x0 a \<noteq> [] then f x0 a else f n a"
  have same: "?f x a = f x a" if "(x, n) \<in> set ps" for x
  proof (cases "x = y0")
    case True
    with that Cons.prems(1) have "x0 = y0" by (auto simp: no_chain_def p)
    then show ?thesis by simp
  next
    case False
    then show ?thesis by simp
  qed
  have "run_pairs ps ?f n a = ?f n a"
  proof (rule Cons.IH)
    show "no_chain ps" using Cons.prems(1) by (rule no_chain_Cons)
    show "\<forall>x. (x, n) \<in> set ps \<longrightarrow> ?f x a = []"
      using Cons.prems(2) same by simp
  qed
  moreover have "?f n a = f n a"
    using Cons.prems(2) by (auto simp: p)
  ultimately show ?case by (simp add: p)
qed

lemma run_pairs_keyed:
  "no_chain ps \<Longrightarrow> (x, n) \<in> set ps \<Longrightarrow> a \<in> set tracked \<Longrightarrow> f x a \<noteq> [] \<Longrightarrow>
   run_pairs ps f n a = f x a"
proof (induction ps arbitrary: f)
  case Nil
  then show ?case by simp
next
  case (Cons p ps)
  obtain x0 y0 where p: "p = (x0, y0)" by (cases p)
  let ?f = "\<lambda>n a. if n = y0 \<and> a \<in> set tracked \<and> f x0 a \<noteq> [] then f x0 a else f n a"
  have nc: "no_chain ps" using Cons.prems(1) by (rule no_chain_Cons)
  show ?case
  proof (cases "(x, n) \<in> set ps")
    case True
    have same: "?f x a = f x a"
    proof (cases "x = y0")
      case True
      with \<open>(x, n) \<in> set ps\<close> Cons.prems(1) have "x0 = y0" by (auto simp: no_chain_def p)
      then show ?thesis by simp
    next
      case False
      then show ?thesis by simp
    qed
    have "run_pairs ps ?f n a = ?f x a"
      using nc True Cons.prems(3) Cons.prems(4) same by (intro Cons.IH) simp_all
    with same show ?thesis by (simp add: p)
  next
    case False
    with Cons.prems(2) have xn: "x0 = x" "y0 = n" by (auto simp: p)
    have none: "\<forall>x'. (x', n) \<in> set ps \<longrightarrow> ?f x' a = []"
    proof (intro allI impI)
      fix x' assume "(x', n) \<in> set ps"
      with Cons.prems(1) xn have "x' = x" by (auto simp: no_chain_def p)
      with \<open>(x', n) \<in> set ps\<close> False show "?f x' a = []" by simp
    qed
    have r: "run_pairs ps ?f n a = ?f n a"
      using nc none by (rule run_pairs_unkeyed)
    have v: "?f n a = f x a"
      using xn Cons.prems(3) Cons.prems(4) by simp
    have step: "run_pairs (p # ps) f = run_pairs ps ?f" by (simp add: p)
    show ?thesis by (simp only: step r v)
  qed
qed

lemma run_pairs_untracked: "a \<notin> set tracked \<Longrightarrow> run_pairs ps f n a = f n a"
  by (induction ps arbitrary: f) auto

lemma run_pairs_idem:
  assumes "no_chain ps"
  shows "run_pairs ps (run_pairs ps f) = run_pairs ps f"
proof (intro ext)
  fix n a
  let ?g = "run_pairs ps f"
  have src: "?g x a = f x a" if "(x, y) \<in> set ps" for x y
    using assms that by (rule run_pairs_source)
  show "run_pairs ps ?g n a = ?g n a"
  proof (cases "a \<in> set tracked \<and> (\<exists>x. (x, n) \<in> set ps \<and> f x a \<noteq> [])")
    case True
    then obtain x where x: "(x, n) \<in> set ps" "f x a \<noteq> []" "a \<in> set tracked" by blast
    have "?g n a = f x a" using assms x by (intro run_pairs_keyed) simp_all
    moreover have "run_pairs ps ?g n a = ?g x a"
      using assms x src [OF x(1)] by (intro run_pairs_keyed) simp_all
    ultimately show ?thesis using src [OF x(1)] by simp
  next
    case False
    show ?thesis
    proof (cases "a \<in> set tracked")
      case True
      with False have "\<forall>x. (x, n) \<in> set ps \<longrightarrow> f x a = []" by blast
      then have "\<forall>x. (x, n) \<in> set ps \<longrightarrow> ?g x a = []" using src by simp
      with assms show ?thesis by (rule run_pairs_unkeyed)
    next
      case False
      then show ?thesis by (simp add: run_pairs_untracked)
    qed
  qed
qed


lemma str_split_tl: "c \<in> set xs \<Longrightarrow> tl (str_split c xs) \<noteq> []"
  by (induction xs) (auto simp: str_split_nonempty split: list.splits)

lemma last_piece_Cons:
  "last_piece c (x # xs) =
     (if c \<in> set xs then last_piece c xs else if x = c then xs else x # xs)"
proof (cases "c \<in> set xs")
  case True
  then obtain w w' ws where "str_split c xs = w # w' # ws"
    using str_split_tl [of c xs] by (cases "str_split c xs") (auto simp: neq_Nil_conv)
  with True show ?thesis by (simp add: last_piece_def)
next
  case False
  then show ?thesis by (simp add: last_piece_def str_split_no_sep)
qed

lemma last_piece_Nil: "last_piece c [] = []"
  by (simp add: last_piece_def)

lemma last_piece_suffix: "suffix (last_piece c x) x"
  by (induction x) (auto simp: last_piece_Cons last_piece_Nil suffix_ConsI)

lemma last_piece_free: "c \<notin> set (last_piece c x)"
  by (induction x) (auto simp: last_piece_Cons last_piece_Nil)

lemma last_piece_longest: "suffix t x \<Longrightarrow> c \<notin> set t \<Longrightarrow> suffix t (last_piece c x)"
proof (induction x)
  case Nil
  then show ?case by (simp add: last_piece_Nil)
next
  case (Cons y ys)
  from Cons.prems(1) have "t = y # ys \<or> suffix t ys" by (simp add: suffix_Cons)
  then show ?case
  proof
    assume "t = y # ys"
    with Cons.prems(2) show ?thesis by (auto simp: last_piece_Cons)
  next
    assume t: "suffix t ys"
    show ?thesis
    proof (cases "c \<in> set ys")
      case True
      with t Cons show ?thesis by (simp add: last_piece_Cons)
    next
      case False
      with t show ?thesis by (simp add: last_piece_Cons suffix_ConsI)
    qed
  qed
qed

lemma last_piece_of_suffix: "suffix t x \<Longrightarrow> c \<in> set t \<Longrightarrow> last_piece c x = last_piece c t"
proof (induction x)
  case Nil
  then show ?case by simp
next
  case (Cons y ys)
  from Cons.prems(1) have "t = y # ys \<or> suffix t ys" by (simp add: suffix_Cons)
  then show ?case
  proof
    assume "t = y # ys"
    then show ?thesis by simp
  next
    assume t: "suffix t ys"
    with Cons.prems(2) have "c \<in> set ys" by (auto simp: suffix_def)
    with t Cons show ?thesis by (simp add: last_piece_Cons)
  qed
qed


lemma transfer_attr_anim_at:
  "anim (transfer_attr i r b t) n a =
     (if n = node_of t r \<and> a = b \<and> anim t (node_of t i) a \<noteq> []
      then anim t (node_of t i) a else anim t n a)"
  by (auto simp: transfer_attr_anim)

lemma fold_transfer_attr_anim:
  "anim (fold (transfer_attr i r) as t) n a =
     (if n = node_of t r \<and> a \<in> set as \<and> anim t (node_of t i) a \<noteq> []
      then anim t (node_of t i) a else anim t n a)"
proof (induction as arbitrary: t)
  case Nil
  show ?case by simp
next
  case (Cons b as)
  let ?t = "transfer_attr i r b t"
  have n: "node_of ?t x = node_of t x" for x
    by (rule node_of_cong) (rule transfer_attr_nodes)
  have src: "anim ?t (node_of t i) a = anim t (node_of t i) a"
    by (simp add: transfer_attr_anim_at)
  have "anim (fold (transfer_attr i r) (b # as) t) n a = anim (fold (transfer_attr i r) as ?t) n a"
    by simp
  also have "\<dots> = (if n = node_of t r \<and> a \<in> set as \<and> anim t (node_of t i) a \<noteq> []
      then anim t (node_of t i) a else anim ?t n a)"
    by (simp only: Cons.IH [of ?t] n src)
  also have "\<dots> = (if n = node_of t r \<and> a \<in> set (b # as) \<and> anim t (node_of t i) a \<noteq> []
      then anim t (node_of t i) a else anim t n a)"
    by (auto simp: transfer_attr_anim_at)
  finally show ?case .
qed

lemma transfer_pair_anim:
  "anim (transfer_pair i r t) =
     (\<lambda>n a. if n = node_of t r \<and> a \<in> set tracked \<and> anim t (node_of t i) a \<noteq> []
            then anim t (node_of t i) a else anim t n a)"
  by (intro ext) (simp add: transfer_pair_def fold_transfer_attr_anim)

lemma pairs_of_cong: "nodes t' = nodes t \<Longrightarrow> pairs_of t' items rd = pairs_of t items rd"
proof -
  assume "nodes t' = nodes t"
  then have "\<And>x. node_of t' x = node_of t x" by (rule node_of_cong)
  then show ?thesis by (simp add: pairs_of_def cong: option.case_cong)
qed

lemma transfer_loop_run:
  "anim (transfer_loop items rd t) = run_pairs (pairs_of t items rd) (anim t)"
proof (induction items arbitrary: t)
  case Nil
  show ?case by (simp add: pairs_of_def)
next
  case (Cons p items)
  obtain k i where p: "p = (k, i)" by (cases p)
  show ?case
  proof (cases "map_of rd k")
    case None
    then show ?thesis using Cons.IH [of t] by (simp add: p pairs_of_def)
  next
    case (Some r)
    let ?t = "transfer_pair i r t"
    have "anim (transfer_loop items rd ?t) = run_pairs (pairs_of t items rd) (anim ?t)"
      using Cons.IH [of ?t] by (simp only: pairs_of_cong [OF transfer_pair_nodes])
    moreover have "pairs_of t (p # items) rd = (node_of t i, node_of t r) # pairs_of t items rd"
      using Some by (simp add: p pairs_of_def)
    ultimately show ?thesis using Some by (simp add: p transfer_pair_anim)
  qed
qed

lemma node_of_joint:
  assumes "\<forall>p \<in> set (joints s). prefix ''|'' p" and "q \<in> set (joints s)"
  shows "node_of s q = q"
proof -
  have "prefix ''|'' q" using assms by blast
  then have l: "ls_long s q = filter (\<lambda>p. p = q) (nodes s)"
    by (simp add: ls_long_def)
  show ?thesis
  proof (cases "filter (\<lambda>p. p = q) (nodes s)")
    case Nil
    with assms(2) show ?thesis by (auto simp: filter_empty_conv nodes_def)
  next
    case (Cons p ps)
    then have "p \<in> set (filter (\<lambda>p. p = q) (nodes s))" by simp
    then have "p = q" by simp
    with Cons l show ?thesis by (simp add: node_of_def)
  qed
qed

lemma the_node_ls: "the_node s ref = Inr P \<Longrightarrow> ls_long s ref = [P]"
  by (auto simp: the_node_def split: list.splits)

lemma the_node_node_of: "the_node s ref = Inr P \<Longrightarrow> node_of s ref = P"
  by (simp add: node_of_def the_node_ls)

lemma the_node_joint: "the_node s ref = Inr P \<Longrightarrow> P \<in> set (nodes s)"
proof -
  assume "the_node s ref = Inr P"
  then have "P \<in> set (ls_long s ref)" by (simp add: the_node_ls)
  then show ?thesis by (simp add: ls_long_def)
qed

lemma the_node_match:
  "the_node s ref = Inr P \<Longrightarrow> ref = P \<or> (\<not> prefix ''|'' ref \<and> suffix (CHR ''|'' # ref) P)"
proof -
  assume "the_node s ref = Inr P"
  then have "P \<in> set (ls_long s ref)" by (simp add: the_node_ls)
  then have "if prefix ''|'' ref then P = ref else suffix (CHR ''|'' # ref) P"
    by (simp add: ls_long_def)
  then show ?thesis by (cases "prefix ''|'' ref") simp_all
qed

lemma the_node_unique:
  assumes "the_node s ref = Inr P" and "z \<in> set (joints s)"
    and "\<not> prefix ''|'' ref" and "suffix (CHR ''|'' # ref) z"
  shows "z = P"
proof -
  have "z \<in> set (ls_long s ref)" using assms(2-4) by (simp add: ls_long_def nodes_def)
  then show ?thesis using the_node_ls [OF assms(1)] by simp
qed


lemma dict_comp_mem: "(k, j) \<in> set (dict_comp key js) \<Longrightarrow> map_of (dict_comp key js) k = Some j"
  using dict_comp_distinct [of key js] by simp

lemma dict_comp_Some:
  assumes "map_of (dict_comp key js) k = Some j"
  shows "j \<in> set js \<and> key j = k"
proof -
  from assms have ne: "filter (\<lambda>j. key j = k) js \<noteq> []"
    and j: "j = last (filter (\<lambda>j. key j = k) js)"
    by (auto simp: dict_comp_map_of split: if_splits)
  from ne have "last (filter (\<lambda>j. key j = k) js) \<in> set (filter (\<lambda>j. key j = k) js)"
    by (rule last_in_set)
  with j show ?thesis by simp
qed

lemma dict_comp_last: "map_of (dict_comp key (js @ [j])) (key j) = Some j"
  by (simp add: dict_comp_map_of)

lemma ref_key:
  assumes "the_node s ref = Inr P"
  shows "remove_namespace ref = remove_namespace P \<or>
         (CHR '':'' \<notin> set ref \<and> \<not> prefix ''|'' ref \<and> suffix (CHR ''|'' # ref) P)"
proof (cases "ref = P")
  case True
  then show ?thesis by simp
next
  case False
  with the_node_match [OF assms] have m: "\<not> prefix ''|'' ref" "suffix (CHR ''|'' # ref) P"
    by simp_all
  show ?thesis
  proof (cases "CHR '':'' \<in> set ref")
    case True
    from m(2) have "suffix ref P" by (rule suffix_ConsD)
    then have "last_piece CHR '':'' P = last_piece CHR '':'' ref"
      using True by (rule last_piece_of_suffix)
    then show ?thesis by (simp add: remove_namespace_def)
  next
    case False
    with m show ?thesis by simp
  qed
qed

lemma key_clash:
  assumes "the_node s ref = Inr P" and "CHR '':'' \<notin> set ref" and "\<not> prefix ''|'' ref"
    and "suffix (CHR ''|'' # ref) P" and "z \<in> set (joints s)"
    and "remove_namespace z = remove_namespace P"
  shows "z = P"
proof -
  have "CHR '':'' \<notin> set (CHR ''|'' # ref)" using assms(2) by simp
  with assms(4) have "suffix (CHR ''|'' # ref) (last_piece CHR '':'' P)"
    by (rule last_piece_longest)
  then have "suffix (CHR ''|'' # ref) (last_piece CHR '':'' z)"
    using assms(6) by (simp add: remove_namespace_def)
  moreover have "suffix (last_piece CHR '':'' z) z" by (rule last_piece_suffix)
  ultimately have "suffix (CHR ''|'' # ref) z" by (rule suffix_order.trans)
  with assms(1,5,3) show ?thesis by (rule the_node_unique)
qed

lemma below_not_self: "prefix (P @ ''|'') q \<Longrightarrow> q \<noteq> P"
  by (auto simp: prefix_def)


lemma suffix_Cons_cases: "suffix (c # xs) (c # ys) \<Longrightarrow> xs = ys \<or> suffix (c # xs) ys"
  by (auto simp: suffix_Cons)

lemma matched_no_chain:
  assumes wf: "\<forall>p \<in> set (joints s). prefix ''|'' p"
    and P: "the_node s src = Inr P" and Q: "the_node s tgt = Inr Q"
    and i: "i \<in> set (filter (\<lambda>q. prefix (P @ ''|'') q) (joints s) @ [src])"
    and ki: "remove_namespace i = k"
    and r: "r \<in> set (filter (\<lambda>q. prefix (Q @ ''|'') q) (joints s) @ [tgt])"
    and kr: "remove_namespace r = k"
    and i': "i' \<in> set (filter (\<lambda>q. prefix (P @ ''|'') q) (joints s) @ [src])"
    and ki': "remove_namespace i' = k'"
    and r': "r' \<in> set (filter (\<lambda>q. prefix (Q @ ''|'') q) (joints s) @ [tgt])"
    and kr': "remove_namespace r' = k'"
    and uniq: "k = k' \<Longrightarrow> i = i'"
  shows "(node_of s r = node_of s r' \<longrightarrow> node_of s i = node_of s i') \<and>
         (node_of s r = node_of s i' \<longrightarrow> node_of s i = node_of s r)"
proof -
  have nP: "node_of s src = P" and nQ: "node_of s tgt = Q"
    using P Q by (simp_all add: the_node_node_of)
  have srcs: "x = src \<or> (x \<in> set (joints s) \<and> node_of s x = x \<and> x \<noteq> P)"
    if "x \<in> set (filter (\<lambda>q. prefix (P @ ''|'') q) (joints s) @ [src])" for x
    using that node_of_joint [OF wf] below_not_self [of P x] by auto
  have tgts: "x = tgt \<or> (x \<in> set (joints s) \<and> node_of s x = x \<and> x \<noteq> Q)"
    if "x \<in> set (filter (\<lambda>q. prefix (Q @ ''|'') q) (joints s) @ [tgt])" for x
    using that node_of_joint [OF wf] below_not_self [of Q x] by auto
  have same: "node_of s i = node_of s r" if "k = k'" "node_of s r = node_of s i'"
    using uniq that by simp
  have a: "node_of s i = node_of s i'" if e: "node_of s r = node_of s r'"
  proof -
    have "r = r'" using tgts [OF r] tgts [OF r'] e nQ by auto
    then have "k = k'" using kr kr' by simp
    then show ?thesis using uniq by simp
  qed
  have b: "node_of s i = node_of s r" if e: "node_of s r = node_of s i'"
  proof -
    consider (jj) "r \<noteq> tgt" "i' \<noteq> src" | (js) "r \<noteq> tgt" "i' = src"
      | (tj) "r = tgt" "i' \<noteq> src" | (ts) "r = tgt" "i' = src"
      by blast
    then show ?thesis
    proof cases
      case jj
      then have "r = i'" using tgts [OF r] srcs [OF i'] e by auto
      then have "k = k'" using kr ki' by simp
      then show ?thesis using e by (rule same)
    next
      case js
      then have rP: "r = P" "node_of s r = P" using tgts [OF r] e nP by auto
      then have kP: "remove_namespace P = k" using kr by simp
      from ref_key [OF P] show ?thesis
      proof
        assume "remove_namespace src = remove_namespace P"
        then have "k = k'" using kP ki' js by simp
        then show ?thesis using e by (rule same)
      next
        assume cf: "CHR '':'' \<notin> set src \<and> \<not> prefix ''|'' src \<and> suffix (CHR ''|'' # src) P"
        from srcs [OF i] show ?thesis
        proof
          assume "i = src"
          then show ?thesis using nP rP by simp
        next
          assume ij: "i \<in> set (joints s) \<and> node_of s i = i \<and> i \<noteq> P"
          have "i = P" using P cf ij ki kP by (intro key_clash [of s src P i]) simp_all
          with ij show ?thesis by simp
        qed
      qed
    next
      case tj
      then have iQ: "i' = Q" "node_of s r = Q" using srcs [OF i'] e nQ by auto
      then have kQ: "remove_namespace Q = k'" using ki' by simp
      from ref_key [OF Q] show ?thesis
      proof
        assume "remove_namespace tgt = remove_namespace Q"
        then have "k = k'" using kQ kr tj by simp
        then show ?thesis using e by (rule same)
      next
        assume cf: "CHR '':'' \<notin> set tgt \<and> \<not> prefix ''|'' tgt \<and> suffix (CHR ''|'' # tgt) Q"
        from tgts [OF r'] show ?thesis
        proof
          assume "r' = tgt"
          then have "k = k'" using kr kr' tj by simp
          then show ?thesis using e by (rule same)
        next
          assume rj: "r' \<in> set (joints s) \<and> node_of s r' = r' \<and> r' \<noteq> Q"
          have "r' = Q" using Q cf rj kr' kQ by (intro key_clash [of s tgt Q r']) simp_all
          with rj show ?thesis by simp
        qed
      qed
    next
      case ts
      then have PQ: "P = Q" using e nP nQ by simp
      have kt: "remove_namespace tgt = k" and ks: "remove_namespace src = k'"
        using ts kr ki' by simp_all
      have goal_src: ?thesis if "i = src" using that nP nQ PQ ts by simp
      have goal_same: ?thesis if "k = k'" using that e by (rule same)
      from ref_key [OF P] show ?thesis
      proof
        assume sP: "remove_namespace src = remove_namespace P"
        from ref_key [OF Q] show ?thesis
        proof
          assume "remove_namespace tgt = remove_namespace Q"
          then have "k = k'" using sP PQ kt ks by simp
          then show ?thesis by (rule goal_same)
        next
          assume cf: "CHR '':'' \<notin> set tgt \<and> \<not> prefix ''|'' tgt \<and> suffix (CHR ''|'' # tgt) Q"
          from tgts [OF r'] show ?thesis
          proof
            assume "r' = tgt"
            then have "k = k'" using kr' kt by simp
            then show ?thesis by (rule goal_same)
          next
            assume rj: "r' \<in> set (joints s) \<and> node_of s r' = r' \<and> r' \<noteq> Q"
            have "r' = Q" using Q cf rj kr' ks sP PQ
              by (intro key_clash [of s tgt Q r']) simp_all
            with rj show ?thesis by simp
          qed
        qed
      next
        assume cfs: "CHR '':'' \<notin> set src \<and> \<not> prefix ''|'' src \<and> suffix (CHR ''|'' # src) P"
        from ref_key [OF Q] show ?thesis
        proof
          assume tQ: "remove_namespace tgt = remove_namespace Q"
          from srcs [OF i] show ?thesis
          proof
            assume "i = src"
            then show ?thesis by (rule goal_src)
          next
            assume ij: "i \<in> set (joints s) \<and> node_of s i = i \<and> i \<noteq> P"
            have "i = P" using P cfs ij ki kt tQ PQ
              by (intro key_clash [of s src P i]) simp_all
            with ij show ?thesis by simp
          qed
        next
          assume cft: "CHR '':'' \<notin> set tgt \<and> \<not> prefix ''|'' tgt \<and> suffix (CHR ''|'' # tgt) Q"
          have ksrc: "k' = src" and ktgt: "k = tgt"
            using cfs cft ks kt by (simp_all add: remove_namespace_def last_piece_no_sep)
          from cfs cft PQ have "suffix (CHR ''|'' # src) (CHR ''|'' # tgt) \<or>
              suffix (CHR ''|'' # tgt) (CHR ''|'' # src)"
            by (intro suffix_same_cases [of _ P]) simp_all
          then show ?thesis
          proof
            assume "suffix (CHR ''|'' # src) (CHR ''|'' # tgt)"
            then have "src = tgt \<or> suffix (CHR ''|'' # src) tgt" by (rule suffix_Cons_cases)
            then show ?thesis
            proof
              assume "src = tgt"
              then have "k = k'" using ksrc ktgt by simp
              then show ?thesis by (rule goal_same)
            next
              assume st: "suffix (CHR ''|'' # src) tgt"
              from srcs [OF i] show ?thesis
              proof
                assume "i = src"
                then show ?thesis by (rule goal_src)
              next
                assume ij: "i \<in> set (joints s) \<and> node_of s i = i \<and> i \<noteq> P"
                have "suffix tgt i"
                  using last_piece_suffix [of "CHR '':''" i] ki ktgt
                  by (simp add: remove_namespace_def)
                with st have "suffix (CHR ''|'' # src) i" by (rule suffix_order.trans)
                then have "i = P" using P ij cfs by (intro the_node_unique [of s src P i]) simp_all
                with ij show ?thesis by simp
              qed
            qed
          next
            assume "suffix (CHR ''|'' # tgt) (CHR ''|'' # src)"
            then have "tgt = src \<or> suffix (CHR ''|'' # tgt) src" by (rule suffix_Cons_cases)
            then show ?thesis
            proof
              assume "tgt = src"
              then have "k = k'" using ksrc ktgt by simp
              then show ?thesis by (rule goal_same)
            next
              assume ts': "suffix (CHR ''|'' # tgt) src"
              from tgts [OF r'] show ?thesis
              proof
                assume "r' = tgt"
                then have "k = k'" using kr' kt by simp
                then show ?thesis by (rule goal_same)
              next
                assume rj: "r' \<in> set (joints s) \<and> node_of s r' = r' \<and> r' \<noteq> Q"
                have "suffix src r'"
                  using last_piece_suffix [of "CHR '':''" r'] kr' ksrc
                  by (simp add: remove_namespace_def)
                with ts' have "suffix (CHR ''|'' # tgt) r'" by (rule suffix_order.trans)
                then have "r' = Q" using Q rj cft by (intro the_node_unique [of s tgt Q r']) simp_all
                with rj show ?thesis by simp
              qed
            qed
          qed
        qed
      qed
    qed
  qed
  from a b show ?thesis by blast
qed


lemma pairs_of_mem:
  "(x, y) \<in> set (pairs_of s items rd) \<Longrightarrow>
   \<exists>k i r. (k, i) \<in> set items \<and> map_of rd k = Some r \<and> x = node_of s i \<and> y = node_of s r"
proof (induction items)
  case Nil
  then show ?case by (simp add: pairs_of_def)
next
  case (Cons p items)
  obtain k i where p: "p = (k, i)" by (cases p)
  have c: "pairs_of s (p # items) rd =
      (case map_of rd k of None \<Rightarrow> [] | Some r \<Rightarrow> [(node_of s i, node_of s r)])
        @ pairs_of s items rd"
    by (simp add: pairs_of_def p)
  show ?case
  proof (cases "(x, y) \<in> set (pairs_of s items rd)")
    case True
    from Cons.IH [OF this] show ?thesis by auto
  next
    case False
    with Cons.prems c obtain r where "map_of rd k = Some r" "x = node_of s i" "y = node_of s r"
      by (cases "map_of rd k") auto
    then show ?thesis by (auto simp: p)
  qed
qed

lemma transfer_pairs_no_chain:
  assumes wf: "\<forall>p \<in> set (joints s). prefix ''|'' p"
    and P: "the_node s src = Inr P" and Q: "the_node s tgt = Inr Q"
  shows "no_chain (pairs_of s
           (dict_comp remove_namespace (filter (\<lambda>q. prefix (P @ ''|'') q) (joints s) @ [src]))
           (dict_comp remove_namespace (filter (\<lambda>q. prefix (Q @ ''|'') q) (joints s) @ [tgt])))"
proof -
  let ?D1 = "dict_comp remove_namespace (filter (\<lambda>q. prefix (P @ ''|'') q) (joints s) @ [src])"
  let ?D2 = "dict_comp remove_namespace (filter (\<lambda>q. prefix (Q @ ''|'') q) (joints s) @ [tgt])"
  have "(y = y' \<longrightarrow> x = x') \<and> (y = x' \<longrightarrow> x = y)"
    if m: "(x, y) \<in> set (pairs_of s ?D1 ?D2)" and m': "(x', y') \<in> set (pairs_of s ?D1 ?D2)"
    for x y x' y'
  proof -
    from pairs_of_mem [OF m] obtain k i r where
      t: "(k, i) \<in> set ?D1" "map_of ?D2 k = Some r" "x = node_of s i" "y = node_of s r"
      by blast
    from pairs_of_mem [OF m'] obtain k' i' r' where
      t': "(k', i') \<in> set ?D1" "map_of ?D2 k' = Some r'" "x' = node_of s i'" "y' = node_of s r'"
      by blast
    have i: "map_of ?D1 k = Some i" and i': "map_of ?D1 k' = Some i'"
      using t(1) t'(1) by (simp_all add: dict_comp_mem)
    have u: "i = i'" if "k = k'" using i i' that by simp
    show ?thesis
      unfolding t t'
      using wf P Q dict_comp_Some [OF i, THEN conjunct1] dict_comp_Some [OF i, THEN conjunct2]
        dict_comp_Some [OF t(2), THEN conjunct1] dict_comp_Some [OF t(2), THEN conjunct2]
        dict_comp_Some [OF i', THEN conjunct1] dict_comp_Some [OF i', THEN conjunct2]
        dict_comp_Some [OF t'(2), THEN conjunct1] dict_comp_Some [OF t'(2), THEN conjunct2] u
      by (rule matched_no_chain)
  qed
  then show ?thesis unfolding no_chain_def by blast
qed

lemma listRelatives_cong:
  "joints s' = joints s \<Longrightarrow> nodes s' = nodes s \<Longrightarrow> listRelatives s' ref = listRelatives s ref"
  by (simp add: listRelatives_def the_node_def ls_long_def cong: sum.case_cong)

lemma listRelatives_Inr:
  "listRelatives s ref = Inr ds \<Longrightarrow>
   \<exists>P. the_node s ref = Inr P \<and> ds = filter (\<lambda>q. prefix (P @ ''|'') q) (joints s)"
  by (auto simp: listRelatives_def split: sum.splits)

section \<open>Running the second transfer twice\<close>

text \<open>
  Claim C7. The transfer from rig A to rig B is idempotent. In a scene whose joints are
  named by full paths (each starts with \<open>|\<close>), whatever the two roots, if the transfer
  returns then a second run on the scene it left returns too and leaves every channel
  of every node, the destinations among them, with the keys it had after the first run.
  No joint that receives keys in one pair is the source of another pair: the root names
  would name two nodes, and \<open>listRelatives\<close> would have raised.
\<close>

theorem transfer_ignore_namespace_idempotent:
  assumes "\<forall>p \<in> set (joints s). prefix ''|'' p"
    and "transfer_animation_ignore_namespace source_root target_root s = Inr s1"
  shows "\<exists>s2. transfer_animation_ignore_namespace source_root target_root s1 = Inr s2 \<and>
              anim s2 = anim s1"
proof -
  from assms(2) obtain ds rs where
    ds: "listRelatives s source_root = Inr ds" and rs: "listRelatives s target_root = Inr rs"
    by (auto simp: transfer_animation_ignore_namespace_def split: sum.splits)
  let ?D1 = "dict_comp remove_namespace (ds @ [source_root])"
  let ?D2 = "dict_comp remove_namespace (rs @ [target_root])"
  let ?m = "''Animation successfully transferred to target rig!''"
  have s1: "s1 = print ?m (transfer_loop ?D1 ?D2 s)"
    using assms(2) ds rs by (simp add: transfer_animation_ignore_namespace_def)
  have j1: "joints s1 = joints s"
    by (simp add: s1 print_def transfer_loop_joints)
  have n1: "nodes s1 = nodes s"
    using transfer_loop_nodes [of ?D1 ?D2 s] by (simp add: s1 print_def nodes_def)
  have a1: "anim s1 = run_pairs (pairs_of s ?D1 ?D2) (anim s)"
    by (simp add: s1 print_def transfer_loop_run)
  let ?s2 = "print ?m (transfer_loop ?D1 ?D2 s1)"
  have run2: "transfer_animation_ignore_namespace source_root target_root s1 = Inr ?s2"
    using ds rs by (simp add: transfer_animation_ignore_namespace_def listRelatives_cong [OF j1 n1])
  from listRelatives_Inr [OF ds] obtain P where
    P: "the_node s source_root = Inr P" "ds = filter (\<lambda>q. prefix (P @ ''|'') q) (joints s)"
    by blast
  from listRelatives_Inr [OF rs] obtain Q where
    Q: "the_node s target_root = Inr Q" "rs = filter (\<lambda>q. prefix (Q @ ''|'') q) (joints s)"
    by blast
  have nc: "no_chain (pairs_of s ?D1 ?D2)"
    unfolding P(2) Q(2) using assms(1) P(1) Q(1) by (rule transfer_pairs_no_chain)
  have "anim ?s2 = run_pairs (pairs_of s1 ?D1 ?D2) (anim s1)"
    by (simp add: print_def transfer_loop_run)
  also have "\<dots> = run_pairs (pairs_of s ?D1 ?D2) (anim s1)"
    by (simp only: pairs_of_cong [OF n1])
  also have "\<dots> = anim s1"
    unfolding a1 using nc by (rule run_pairs_idem)
  finally show ?thesis using run2 by blast
qed

lemma demo_transfer_ns_value:
  "map_sum id (\<lambda>s. anim s ''|RigB|b:Hips|b:Spine'' ''rotateX'')
     (transfer_animation_ignore_namespace ''RigA|ns:Hips'' ''b:Hips'' demo) = Inr [(0, 7)]"
  by code_simp

theorem transfer_ignore_namespace_idempotent_witness:
  "\<exists>s1 s2. transfer_animation_ignore_namespace ''RigA|ns:Hips'' ''b:Hips'' demo = Inr s1 \<and>
      anim s1 ''|RigB|b:Hips|b:Spine'' ''rotateX'' = [(0, 7)] \<and>
      anim demo ''|RigB|b:Hips|b:Spine'' ''rotateX'' = [] \<and>
      transfer_animation_ignore_namespace ''RigA|ns:Hips'' ''b:Hips'' s1 = Inr s2 \<and>
      anim s2 = anim s1"
proof -
  have wf: "\<forall>p \<in> set (joints demo). prefix ''|'' p"
    by (simp add: demo_def)
  obtain s1 where s1: "transfer_animation_ignore_namespace ''RigA|ns:Hips'' ''b:Hips'' demo = Inr s1"
    "anim s1 ''|RigB|b:Hips|b:Spine'' ''rotateX'' = [(0, 7)]"
    using map_sum_Inr [OF demo_transfer_ns_value] by blast
  have d: "anim demo ''|RigB|b:Hips|b:Spine'' ''rotateX'' = []"
    by (simp add: demo_def demo_anim_def)
  from transfer_ignore_namespace_idempotent [OF wf s1(1)] s1 d show ?thesis by blast
qed


end
